theory Spec2Isabelle
  imports Complex_Main "HOL-Library.AList" "HOL-Library.Log_Nat"
begin

section \<open>Values shared by the server actions and the form\<close>

text \<open>A JavaScript \<^verbatim>\<open>Error\<close> object, identified by its message.\<close>

datatype error = Error string

text \<open>
  Plain JSON values: what \<^verbatim>\<open>JSON.parse\<close> produces and what the transformation
  configurations are made of. An object is an association list, in key order.
  A JSON number is given by its exact value.
\<close>

datatype json =
    JNull
  | JBool bool
  | JNum rat
  | JStr string
  | JArr "json list"
  | JObj "(string \<times> json) list"

subsection \<open>JavaScript numbers\<close>

text \<open>
  A JavaScript number is an IEEE 754 double: a finite value, given here by the rational
  it denotes, an infinity, or \<^verbatim>\<open>NaN\<close>. The sign of zero is not kept: \<open>Fin 0\<close> stands
  for both zeros, which \<^verbatim>\<open>===\<close> does not tell apart either.
\<close>

datatype number = Fin rat | Infinity | NegInfinity | NaN

definition pow2 :: "int \<Rightarrow> rat" where
  "pow2 k = (if 0 \<le> k then 2 ^ nat k else 1 / 2 ^ nat (- k))"

text \<open>The integer part of the binary logarithm of a positive rational.\<close>

definition ilog2 :: "rat \<Rightarrow> int" where
  "ilog2 x = (if 1 \<le> x then bitlen \<lfloor>x\<rfloor> - 1 else - bitlen (\<lceil>1 / x\<rceil> - 1))"

definition round_half_even :: "rat \<Rightarrow> int" where
  "round_half_even x =
     (let f = \<lfloor>x\<rfloor>; d = x - of_int f
      in if d < 1 / 2 then f else if 1 / 2 < d then f + 1 else if even f then f else f + 1)"

text \<open>
  The double an exact value is rounded to, as every arithmetic operation on numbers
  does: to the nearest value with a significand of 53 bits at the exponent of the
  value (never below the exponent \<open>-1074\<close> of the subnormal numbers), ties to the even
  significand, and to an infinity from \<open>2 ^ 1024\<close> on.
\<close>

definition to_double :: "rat \<Rightarrow> number" where
  "to_double x =
     (if x = 0 then Fin 0
      else
        (let a = \<bar>x\<bar>;
             e = max (ilog2 a - 52) (- 1074);
             m = round_half_even (a / pow2 e)
         in if 971 < e \<or> (e = 971 \<and> 2 ^ 53 \<le> m)
            then (if 0 < x then Infinity else NegInfinity)
            else Fin (if 0 < x then of_int m * pow2 e else - (of_int m * pow2 e))))"

fun signum :: "number \<Rightarrow> int" where
  "signum (Fin x) = (if 0 < x then 1 else if x < 0 then - 1 else 0)"
| "signum Infinity = 1"
| "signum NegInfinity = - 1"
| "signum NaN = 0"

text \<open>The operator \<^verbatim>\<open>*\<close> on numbers.\<close>

fun multiply :: "number \<Rightarrow> number \<Rightarrow> number" where
  "multiply (Fin a) (Fin b) = to_double (a * b)"
| "multiply NaN y = NaN"
| "multiply x NaN = NaN"
| "multiply x y =
     (if signum x * signum y = 0 then NaN
      else if 0 < signum x * signum y then Infinity else NegInfinity)"

text \<open>\<^verbatim>\<open>JSON.stringify\<close> prints a number that is not finite as \<^verbatim>\<open>null\<close>.\<close>

fun number_json :: "number \<Rightarrow> json" where
  "number_json (Fin x) = JNum x"
| "number_json x = JNull"

text \<open>The decimal numeral of a number, as JavaScript prints an array index or a counter.\<close>

function show_nat :: "nat \<Rightarrow> string" where
  "show_nat n =
     (if n < 10 then [char_of (48 + n)]
      else show_nat (n div 10) @ [char_of (48 + n mod 10)])"
  by pat_completeness auto
termination
  by (relation "measure id") auto

declare show_nat.simps [simp del]

section \<open>The process and the services around it\<close>

text \<open>
  A \<^verbatim>\<open>Mongoose\<close> handle, and the promise returned by a call of
  \<^verbatim>\<open>mongoose.connect\<close>: \<open>Promise n\<close> is the promise of the \<open>n\<close>-th call made by
  this process.
\<close>

datatype Mongoose = Mongoose nat

datatype promise = Promise nat

record connect_request =
  url :: string
  dbName :: string
  bufferCommands :: bool

text \<open>
  The request \<^verbatim>\<open>checkoutCredits\<close> sends to the payment provider: the argument of
  \<^verbatim>\<open>stripe.checkout.sessions.create\<close>, with the nesting of \<^verbatim>\<open>price_data\<close> and
  \<^verbatim>\<open>product_data\<close> flattened into the line item.
\<close>

record line_item =
  currency :: string
  unit_amount :: number
  product_name :: string
  quantity :: nat

record session_request =
  line_items :: "line_item list"
  metadata :: "(string \<times> json) list"
  mode :: string
  success_url :: string
  cancel_url :: string

text \<open>
  What the process is deployed with, and what lies outside it: the environment variables
  \<^verbatim>\<open>MONGODB_URL\<close> and \<^verbatim>\<open>NEXT_PUBLIC_SERVER_URL\<close>, how the network settles the
  \<open>n\<close>-th connection attempt, how the payment provider answers a session request
  (the session's URL, or an exception), and the credit balance that the user schema,
  which is not among the sources, gives a new user.
\<close>

record env =
  MONGODB_URL :: "string option"
  NEXT_PUBLIC_SERVER_URL :: "string option"
  connect_outcome :: "nat \<Rightarrow> error + Mongoose"
  sessions_create :: "session_request \<Rightarrow> error + string"
  initialCredits :: int

section \<open>Connection manager (lib/database/mongoose)\<close>

text \<open>
  The process-wide object \<^verbatim>\<open>cached\<close> with its two slots, together with the log of
  the calls made to \<^verbatim>\<open>mongoose.connect\<close>.
\<close>

record cache =
  conn :: "Mongoose option"
  promise :: "promise option"
  requests :: "connect_request list"

definition cache0 :: cache where
  "cache0 = \<lparr>conn = None, promise = None, requests = []\<rparr>"

definition config_error :: error where
  "config_error = Error ''Please define the MONGODB_URL environment variable''"

text \<open>The arguments of the one place where the source calls \<^verbatim>\<open>mongoose.connect\<close>.\<close>

definition the_request :: "string \<Rightarrow> connect_request" where
  "the_request u = \<lparr>url = u, dbName = ''imaginify'', bufferCommands = False\<rparr>"

text \<open>
  \<^verbatim>\<open>connectToDatabase\<close> runs synchronously up to its single \<^verbatim>\<open>await\<close>, and resumes
  when the awaited promise has settled. \<open>connect_begin\<close> is the first half: it either
  finishes the call (\<open>Done\<close>) or suspends it on a promise (\<open>Awaiting\<close>).
  \<open>connect_resume\<close> is the second half.
\<close>

datatype phase = Done "error + Mongoose" | Awaiting promise

definition connect_begin :: "env \<Rightarrow> cache \<Rightarrow> phase \<times> cache" where
  "connect_begin E c =
     (case conn c of
        Some m \<Rightarrow> (Done (Inr m), c)
      | None \<Rightarrow>
          (case MONGODB_URL E of
             None \<Rightarrow> (Done (Inl config_error), c)
           | Some u \<Rightarrow>
               if u = [] then
                 (Done (Inl config_error), c)
               else
                 (case promise c of
                    Some p \<Rightarrow> (Awaiting p, c\<lparr>promise := Some p\<rparr>)
                  | None \<Rightarrow>
                      (Awaiting (Promise (length (requests c))),
                       c\<lparr>promise := Some (Promise (length (requests c))),
                         requests := requests c @ [the_request u]\<rparr>))))"

fun await :: "env \<Rightarrow> promise \<Rightarrow> error + Mongoose" where
  "await E (Promise n) = connect_outcome E n"

definition connect_resume :: "env \<Rightarrow> promise \<Rightarrow> cache \<Rightarrow> (error + Mongoose) \<times> cache" where
  "connect_resume E p c =
     (case await E p of
        Inl e \<Rightarrow> (Inl e, c)
      | Inr m \<Rightarrow> (Inr m, c\<lparr>conn := Some m\<rparr>))"

text \<open>A call that nothing interleaves with.\<close>

definition connectToDatabase :: "env \<Rightarrow> cache \<Rightarrow> (error + Mongoose) \<times> cache" where
  "connectToDatabase E c =
     (case connect_begin E c of
        (Done r, c') \<Rightarrow> (r, c')
      | (Awaiting p, c') \<Rightarrow> connect_resume E p c')"

text \<open>
  Calls that interleave at the \<^verbatim>\<open>await\<close>: \<open>Call\<close> starts a new call and runs it up to
  its suspension point, \<open>Wake i\<close> resumes the \<open>i\<close>-th suspended call. A schedule is a
  list of such events; \<open>returned\<close> collects what the finished calls gave their callers.
  \<open>assigned\<close> logs the assignments to the slots of \<^verbatim>\<open>cached\<close> as they are executed:
  \<^verbatim>\<open>cached.promise = ...\<close> is executed by exactly the calls that reach the \<^verbatim>\<open>await\<close>,
  and \<^verbatim>\<open>cached.conn = ...\<close> by exactly the calls whose awaited promise resolved.
\<close>

datatype event = Call | Wake nat

datatype slot = PromiseSlot | ConnSlot

record sys =
  store :: cache
  waiting :: "promise list"
  returned :: "(error + Mongoose) list"
  assigned :: "slot list"

definition sys0 :: sys where
  "sys0 = \<lparr>store = cache0, waiting = [], returned = [], assigned = []\<rparr>"

definition drop_nth :: "nat \<Rightarrow> 'a list \<Rightarrow> 'a list" where
  "drop_nth i xs = take i xs @ drop (Suc i) xs"

fun step :: "env \<Rightarrow> sys \<Rightarrow> event \<Rightarrow> sys" where
  "step E s Call =
     (case connect_begin E (store s) of
        (Done r, c') \<Rightarrow> s\<lparr>store := c', returned := returned s @ [r]\<rparr>
      | (Awaiting p, c') \<Rightarrow>
          s\<lparr>store := c', waiting := waiting s @ [p], assigned := assigned s @ [PromiseSlot]\<rparr>)"
| "step E s (Wake i) =
     (if i < length (waiting s) then
        (case connect_resume E (waiting s ! i) (store s) of
           (r, c') \<Rightarrow>
             s\<lparr>store := c', waiting := drop_nth i (waiting s), returned := returned s @ [r],
               assigned := assigned s @ (case r of Inl e \<Rightarrow> [] | Inr m \<Rightarrow> [ConnSlot])\<rparr>)
      else s)"

definition run :: "env \<Rightarrow> event list \<Rightarrow> sys \<Rightarrow> sys" where
  "run E es s = foldl (step E) s es"

section \<open>The document store behind the models\<close>

text \<open>
  The schemas and the parameter types (\<^verbatim>\<open>user.model\<close>, \<^verbatim>\<open>transaction.model\<close>,
  \<^verbatim>\<open>types/index.d.ts\<close>) are not among the sources. A user document carries what the
  actions read (\<^verbatim>\<open>_id\<close>, \<^verbatim>\<open>clerkId\<close>, \<^verbatim>\<open>creditBalance\<close>) and its remaining
  fields as a list; a transaction carries the parameters it was created from. Object
  ids are strings; the store makes a new one from its counter \<open>nextId\<close>.
\<close>

type_synonym object_id = string

record CreateUserParams =
  clerkId :: string
  profile :: "(string \<times> json) list"

record user = CreateUserParams +
  user_id :: object_id
  creditBalance :: int

type_synonym UpdateUserParams = "(string \<times> json) list"

record TransactionParams =
  plan :: string
  credits :: int
  amount :: number
  buyerId :: object_id

record transaction = TransactionParams +
  transaction_id :: object_id
  buyer :: object_id

datatype collection = Users | Transactions

datatype docop =
    Insert collection
  | FindOne collection
  | FindOneAndUpdate collection
  | FindByIdAndDelete collection

text \<open>
  The state of the process and of the store: the connection cache, the two
  collections, the log of the document operations sent to the store, the paths given
  to \<^verbatim>\<open>revalidatePath\<close>, and \<open>faults\<close>, which scripts the store's own failures: its
  \<open>n\<close>-th entry says whether the \<open>n\<close>-th document operation from now is answered
  (\<open>None\<close>) or rejected with an error; past the end of the script everything is
  answered. Each operation is logged and consumes one entry.
\<close>

record db =
  cached :: cache
  users :: "user list"
  transactions :: "transaction list"
  nextId :: nat
  oplog :: "docop list"
  revalidated :: "string list"
  faults :: "error option list"

definition script_at :: "nat \<Rightarrow> error option list \<Rightarrow> error option" where
  "script_at n fs = (case drop n fs of [] \<Rightarrow> None | f # _ \<Rightarrow> f)"

definition fault_at :: "nat \<Rightarrow> db \<Rightarrow> error option" where
  "fault_at n st = script_at n (faults st)"

definition perform :: "docop \<Rightarrow> db \<Rightarrow> error option \<times> db" where
  "perform op st = (fault_at 0 st, st\<lparr>oplog := oplog st @ [op], faults := tl (faults st)\<rparr>)"

fun update_first :: "('a \<Rightarrow> bool) \<Rightarrow> ('a \<Rightarrow> 'a) \<Rightarrow> 'a list \<Rightarrow> 'a list" where
  "update_first q f [] = []"
| "update_first q f (x # xs) = (if q x then f x # xs else x # update_first q f xs)"

fun remove_first :: "('a \<Rightarrow> bool) \<Rightarrow> 'a list \<Rightarrow> 'a list" where
  "remove_first q [] = []"
| "remove_first q (x # xs) = (if q x then xs else x # remove_first q xs)"

text \<open>\<^verbatim>\<open>User.create\<close>, \<^verbatim>\<open>User.findOne\<close>, \<^verbatim>\<open>User.findOneAndUpdate\<close> with
  \<^verbatim>\<open>{new: true}\<close> (it answers with the document as updated),
  \<^verbatim>\<open>User.findByIdAndDelete\<close> and \<^verbatim>\<open>Transaction.create\<close>.\<close>

definition User_create :: "env \<Rightarrow> CreateUserParams \<Rightarrow> db \<Rightarrow> (error + user) \<times> db" where
  "User_create E p st =
     (case perform (Insert Users) st of
        (Some e, st') \<Rightarrow> (Inl e, st')
      | (None, st') \<Rightarrow>
          (let u = \<lparr>clerkId = clerkId p, profile = profile p,
                    user_id = show_nat (nextId st'), creditBalance = initialCredits E\<rparr>
           in (Inr u, st'\<lparr>users := users st' @ [u], nextId := Suc (nextId st')\<rparr>)))"

definition User_findOne :: "(user \<Rightarrow> bool) \<Rightarrow> db \<Rightarrow> (error + user option) \<times> db" where
  "User_findOne q st =
     (case perform (FindOne Users) st of
        (Some e, st') \<Rightarrow> (Inl e, st')
      | (None, st') \<Rightarrow> (Inr (find q (users st')), st'))"

definition User_findOneAndUpdate ::
    "(user \<Rightarrow> bool) \<Rightarrow> (user \<Rightarrow> user) \<Rightarrow> db \<Rightarrow> (error + user option) \<times> db" where
  "User_findOneAndUpdate q f st =
     (case perform (FindOneAndUpdate Users) st of
        (Some e, st') \<Rightarrow> (Inl e, st')
      | (None, st') \<Rightarrow>
          (Inr (map_option f (find q (users st'))),
           st'\<lparr>users := update_first q f (users st')\<rparr>))"

definition User_findByIdAndDelete :: "object_id \<Rightarrow> db \<Rightarrow> (error + user option) \<times> db" where
  "User_findByIdAndDelete i st =
     (case perform (FindByIdAndDelete Users) st of
        (Some e, st') \<Rightarrow> (Inl e, st')
      | (None, st') \<Rightarrow>
          (Inr (find (\<lambda>u. user_id u = i) (users st')),
           st'\<lparr>users := remove_first (\<lambda>u. user_id u = i) (users st')\<rparr>))"

definition Transaction_create ::
    "TransactionParams \<Rightarrow> object_id \<Rightarrow> db \<Rightarrow> (error + transaction) \<times> db" where
  "Transaction_create p b st =
     (case perform (Insert Transactions) st of
        (Some e, st') \<Rightarrow> (Inl e, st')
      | (None, st') \<Rightarrow>
          (let t = \<lparr>plan = plan p, credits = credits p, amount = amount p, buyerId = buyerId p,
                    transaction_id = show_nat (nextId st'), buyer = b\<rparr>
           in (Inr t, st'\<lparr>transactions := transactions st' @ [t], nextId := Suc (nextId st')\<rparr>)))"

text \<open>
  \<^verbatim>\<open>JSON.parse(JSON.stringify(doc))\<close>: the plain value a document is turned into before
  an action returns it.
\<close>

definition user_json :: "user \<Rightarrow> json" where
  "user_json u =
     JObj ([(''_id'', JStr (user_id u)), (''clerkId'', JStr (clerkId u))] @ profile u @
           [(''creditBalance'', JNum (of_int (creditBalance u)))])"

definition transaction_json :: "transaction \<Rightarrow> json" where
  "transaction_json t =
     JObj [(''_id'', JStr (transaction_id t)), (''plan'', JStr (plan t)),
           (''credits'', JNum (of_int (credits t))), (''amount'', number_json (amount t)),
           (''buyerId'', JStr (buyerId t)), (''buyer'', JStr (buyer t))]"

section \<open>Server actions (lib/actions/user.actions, lib/actions/transaction.actions)\<close>

text \<open>
  An action's promise settles in one of three ways: it rejects with an error (\<open>Inl\<close>),
  it resolves with \<^verbatim>\<open>undefined\<close> (\<open>Inr None\<close>), or it resolves with a value.

  The \<^verbatim>\<open>catch\<close> block of every action is \<^verbatim>\<open>handleError(error);\<close> and nothing else.
  The handler lives in \<^verbatim>\<open>lib/utils\<close>, which is not among the sources, so the actions
  take it as their first argument: a handler answers \<open>None\<close> when it returns to the
  \<^verbatim>\<open>catch\<close> block, which then falls off the end of the function, and \<open>Some e\<close> when
  it throws \<open>e\<close>.
\<close>

type_synonym handler = "error \<Rightarrow> error option"

type_synonym result = "error + json option"

definition caught :: "handler \<Rightarrow> error \<Rightarrow> result" where
  "caught h e = (case h e of None \<Rightarrow> Inr None | Some e' \<Rightarrow> Inl e')"

text \<open>
  Modelled from the spec: \<^verbatim>\<open>handleError\<close> of \<^verbatim>\<open>lib/utils\<close>, missing from the sources.
  The spec describes it as the shared handler that logs or normalizes the error and
  does not rethrow, so that the caller sees no return value and no thrown error.
  The console is not part of the modelled state.
\<close>

definition handleError :: handler where
  "handleError e = None"

text \<open>The first statement of every \<^verbatim>\<open>try\<close> block: \<^verbatim>\<open>await connectToDatabase()\<close>.\<close>

definition connected :: "env \<Rightarrow> db \<Rightarrow> (error + Mongoose) \<times> db" where
  "connected E st =
     (case connectToDatabase E (cached st) of (r, c) \<Rightarrow> (r, st\<lparr>cached := c\<rparr>))"

definition createUser :: "handler \<Rightarrow> env \<Rightarrow> CreateUserParams \<Rightarrow> db \<Rightarrow> result \<times> db" where
  "createUser h E user st =
     (case connected E st of
        (Inl e, st1) \<Rightarrow> (caught h e, st1)
      | (Inr _, st1) \<Rightarrow>
          (case User_create E user st1 of
             (Inl e, st2) \<Rightarrow> (caught h e, st2)
           | (Inr newUser, st2) \<Rightarrow> (Inr (Some (user_json newUser)), st2)))"

definition getUserById :: "handler \<Rightarrow> env \<Rightarrow> string \<Rightarrow> db \<Rightarrow> result \<times> db" where
  "getUserById h E userId st =
     (case connected E st of
        (Inl e, st1) \<Rightarrow> (caught h e, st1)
      | (Inr _, st1) \<Rightarrow>
          (case User_findOne (\<lambda>u. clerkId u = userId) st1 of
             (Inl e, st2) \<Rightarrow> (caught h e, st2)
           | (Inr None, st2) \<Rightarrow> (caught h (Error ''User not found''), st2)
           | (Inr (Some user), st2) \<Rightarrow> (Inr (Some (user_json user)), st2)))"

text \<open>The update document of \<^verbatim>\<open>updateUser\<close> sets the fields it names.\<close>

definition set_fields :: "UpdateUserParams \<Rightarrow> user \<Rightarrow> user" where
  "set_fields upd u = u\<lparr>profile := foldl (\<lambda>al (k, v). AList.update k v al) (profile u) upd\<rparr>"

definition updateUser ::
    "handler \<Rightarrow> env \<Rightarrow> string \<Rightarrow> UpdateUserParams \<Rightarrow> db \<Rightarrow> result \<times> db" where
  "updateUser h E cid user st =
     (case connected E st of
        (Inl e, st1) \<Rightarrow> (caught h e, st1)
      | (Inr _, st1) \<Rightarrow>
          (case User_findOneAndUpdate (\<lambda>u. clerkId u = cid) (set_fields user) st1 of
             (Inl e, st2) \<Rightarrow> (caught h e, st2)
           | (Inr None, st2) \<Rightarrow> (caught h (Error ''User update failed''), st2)
           | (Inr (Some updatedUser), st2) \<Rightarrow> (Inr (Some (user_json updatedUser)), st2)))"

definition deleteUser :: "handler \<Rightarrow> env \<Rightarrow> string \<Rightarrow> db \<Rightarrow> result \<times> db" where
  "deleteUser h E cid st =
     (case connected E st of
        (Inl e, st1) \<Rightarrow> (caught h e, st1)
      | (Inr _, st1) \<Rightarrow>
          (case User_findOne (\<lambda>u. clerkId u = cid) st1 of
             (Inl e, st2) \<Rightarrow> (caught h e, st2)
           | (Inr None, st2) \<Rightarrow> (caught h (Error ''User not found''), st2)
           | (Inr (Some userToDelete), st2) \<Rightarrow>
               (case User_findByIdAndDelete (user_id userToDelete) st2 of
                  (Inl e, st3) \<Rightarrow> (caught h e, st3)
                | (Inr deletedUser, st3) \<Rightarrow>
                    (Inr (Some (case deletedUser of
                                  Some d \<Rightarrow> user_json d
                                | None \<Rightarrow> JNull)),
                     st3\<lparr>revalidated := revalidated st3 @ [''/'']\<rparr>))))"

definition updateCredits :: "handler \<Rightarrow> env \<Rightarrow> object_id \<Rightarrow> int \<Rightarrow> db \<Rightarrow> result \<times> db" where
  "updateCredits h E userId creditFee st =
     (case connected E st of
        (Inl e, st1) \<Rightarrow> (caught h e, st1)
      | (Inr _, st1) \<Rightarrow>
          (case User_findOneAndUpdate (\<lambda>u. user_id u = userId)
                  (\<lambda>u. u\<lparr>creditBalance := creditBalance u + creditFee\<rparr>) st1 of
             (Inl e, st2) \<Rightarrow> (caught h e, st2)
           | (Inr None, st2) \<Rightarrow> (caught h (Error ''User credits update failed''), st2)
           | (Inr (Some updatedUserCredits), st2) \<Rightarrow>
               (Inr (Some (user_json updatedUserCredits)), st2)))"

text \<open>
  \<^verbatim>\<open>createTransaction\<close> awaits \<^verbatim>\<open>updateCredits\<close> inside its own \<^verbatim>\<open>try\<close> block and
  drops the value: only a rejection of \<^verbatim>\<open>updateCredits\<close> reaches the \<^verbatim>\<open>catch\<close>.
\<close>

definition createTransaction :: "handler \<Rightarrow> env \<Rightarrow> TransactionParams \<Rightarrow> db \<Rightarrow> result \<times> db" where
  "createTransaction h E tx st =
     (case connected E st of
        (Inl e, st1) \<Rightarrow> (caught h e, st1)
      | (Inr _, st1) \<Rightarrow>
          (case Transaction_create tx (buyerId tx) st1 of
             (Inl e, st2) \<Rightarrow> (caught h e, st2)
           | (Inr newTransaction, st2) \<Rightarrow>
               (case updateCredits h E (buyerId tx) (credits tx) st2 of
                  (Inl e, st3) \<Rightarrow> (caught h e, st3)
                | (Inr _, st3) \<Rightarrow> (Inr (Some (transaction_json newTransaction)), st3))))"

text \<open>
  \<^verbatim>\<open>checkoutCredits\<close> has no \<^verbatim>\<open>try\<close> block and touches neither the connection nor a
  model: the state is passed through to say so. It ends in \<^verbatim>\<open>redirect(session.url)\<close>,
  whose target is the value on success. A template literal prints an unset
  environment variable as \<^verbatim>\<open>undefined\<close>. \<^verbatim>\<open>Number\<close> leaves a number as it is.
\<close>

definition interpolate :: "string option \<Rightarrow> string" where
  "interpolate v = (case v of None \<Rightarrow> ''undefined'' | Some x \<Rightarrow> x)"

definition checkout_request :: "env \<Rightarrow> TransactionParams \<Rightarrow> session_request" where
  "checkout_request E tx =
     \<lparr>line_items =
        [\<lparr>currency = ''usd'', unit_amount = multiply (amount tx) (Fin 100), product_name = plan tx,
          quantity = 1\<rparr>],
      metadata =
        [(''plan'', JStr (plan tx)), (''credits'', JNum (of_int (credits tx))),
         (''buyerId'', JStr (buyerId tx))],
      mode = ''payment'',
      success_url = interpolate (NEXT_PUBLIC_SERVER_URL E) @ ''/profile'',
      cancel_url = interpolate (NEXT_PUBLIC_SERVER_URL E) @ ''/''\<rparr>"

datatype redirect = Redirect string

definition checkoutCredits :: "env \<Rightarrow> TransactionParams \<Rightarrow> db \<Rightarrow> (error + redirect) \<times> db" where
  "checkoutCredits E tx st =
     (case sessions_create E (checkout_request E tx) of
        Inl e \<Rightarrow> (Inl e, st)
      | Inr session_url \<Rightarrow> (Inr (Redirect session_url), st))"

section \<open>Transformation form (components/shared/TransformationForm)\<close>

subsection \<open>Object spread and property access on plain values\<close>

text \<open>
  The own enumerable properties that \<^verbatim>\<open>{...x}\<close> copies: the entries of an object, the
  elements of an array and the characters of a string under their decimal indices,
  and nothing for \<^verbatim>\<open>null\<close>, \<^verbatim>\<open>undefined\<close>, booleans and numbers. \<open>JNull\<close> stands for
  both \<^verbatim>\<open>null\<close> and \<^verbatim>\<open>undefined\<close>.
\<close>

fun spread :: "json \<Rightarrow> (string \<times> json) list" where
  "spread (JObj kvs) = kvs"
| "spread (JArr xs) = zip (map show_nat [0..<length xs]) xs"
| "spread (JStr cs) = zip (map show_nat [0..<length cs]) (map (\<lambda>c. JStr [c]) cs)"
| "spread _ = []"

text \<open>\<^verbatim>\<open>x?.[k]\<close> for an own property \<open>k\<close>.\<close>

definition get_prop :: "json \<Rightarrow> string \<Rightarrow> json" where
  "get_prop x k = (case map_of (spread x) k of None \<Rightarrow> JNull | Some v \<Rightarrow> v)"

subsection \<open>The helpers imported from lib/utils\<close>

text \<open>
  Modelled from the spec: \<^verbatim>\<open>deepMergeObjects\<close> of \<^verbatim>\<open>lib/utils\<close>, missing from the
  sources. The spec: it deep-merges the pending configuration (first argument) into
  the committed configuration (second argument); pending wins on conflicting keys,
  arrays and objects merge recursively, and explicit absence (no value) in the
  pending side is dropped rather than overwriting.
\<close>

fun deepMergeObjects :: "json \<Rightarrow> json \<Rightarrow> json"
  and merge_entries :: "(string \<times> json) list \<Rightarrow> (string \<times> json) list \<Rightarrow> (string \<times> json) list"
  and merge_items :: "json list \<Rightarrow> json list \<Rightarrow> json list" where
  "deepMergeObjects JNull c = c"
| "deepMergeObjects (JObj ps) (JObj cs) = JObj (merge_entries ps cs)"
| "deepMergeObjects (JArr ps) (JArr cs) = JArr (merge_items ps cs)"
| "deepMergeObjects p c = p"
| "merge_entries [] cs = cs"
| "merge_entries ((k, v) # ps) cs =
     merge_entries ps
       (if v = JNull then cs
        else (case map_of cs k of
                None \<Rightarrow> cs @ [(k, v)]
              | Some w \<Rightarrow> AList.update k (deepMergeObjects v w) cs))"
| "merge_items [] cs = cs"
| "merge_items ps [] = ps"
| "merge_items (p # ps) (c # cs) = deepMergeObjects p c # merge_items ps cs"

text \<open>
  The closure that \<^verbatim>\<open>onInputChangeHandler\<close> hands to \<^verbatim>\<open>debounce\<close>, with the three
  values it captures: \<^verbatim>\<open>fieldName\<close>, \<^verbatim>\<open>value\<close> and \<^verbatim>\<open>type\<close>.
\<close>

datatype callback = InputChange string string string

text \<open>
  The component's state: the pending configuration \<^verbatim>\<open>newTransformation\<close>, the committed
  \<^verbatim>\<open>transformationConfig\<close>, the two flags, the values handed to the field's
  \<^verbatim>\<open>onChangeField\<close>, the ledger calls handed to \<^verbatim>\<open>startTransition\<close>, and the armed
  debounce timer with its deadline in milliseconds.
\<close>

record form =
  newTransformation :: json
  transformationConfig :: json
  isSubmitting :: bool
  isTransforming :: bool
  changed :: "string list"
  transitions :: "(object_id \<times> int) list"
  timer :: "(nat \<times> callback) option"

text \<open>
  Modelled from the spec: \<^verbatim>\<open>debounce\<close> of \<^verbatim>\<open>lib/utils\<close>, missing from the sources.
  The spec: single-flight, trailing-edge, fixed delay. The call arms the one timer
  with the given callback, \<open>delay\<close> after \<open>now\<close>, replacing whatever was armed.
\<close>

definition debounce :: "callback \<Rightarrow> nat \<Rightarrow> nat \<Rightarrow> form \<Rightarrow> form" where
  "debounce cb delay now f = f\<lparr>timer := Some (now + delay, cb)\<rparr>"

subsection \<open>The handlers\<close>

text \<open>The updater given to \<^verbatim>\<open>setNewTransformation\<close> inside the debounced callback.\<close>

definition with_input :: "string \<Rightarrow> string \<Rightarrow> string \<Rightarrow> json \<Rightarrow> json" where
  "with_input fieldName val ty prevState =
     JObj (AList.update ty
            (JObj (AList.update (if fieldName = ''prompt'' then ''prompt'' else ''to'')
                     (JStr val) (spread (get_prop prevState ty))))
            (spread prevState))"

fun fire :: "callback \<Rightarrow> form \<Rightarrow> form" where
  "fire (InputChange fieldName val ty) f =
     f\<lparr>newTransformation := with_input fieldName val ty (newTransformation f),
       changed := changed f @ [val]\<rparr>"

definition onInputChangeHandler :: "string \<Rightarrow> string \<Rightarrow> string \<Rightarrow> nat \<Rightarrow> form \<Rightarrow> form" where
  "onInputChangeHandler fieldName val ty now f = debounce (InputChange fieldName val ty) 1000 now f"

text \<open>Time reaches \<open>now\<close>: a timer whose deadline has come runs its callback.\<close>

definition elapse :: "nat \<Rightarrow> form \<Rightarrow> form" where
  "elapse now f =
     (case timer f of
        None \<Rightarrow> f
      | Some (t, cb) \<Rightarrow> if t \<le> now then fire cb (f\<lparr>timer := None\<rparr>) else f)"

text \<open>An edit of an input field at a given time, and a sequence of them.\<close>

record edit =
  at_ms :: nat
  fieldName :: string
  val :: string
  ty :: string

definition type_into :: "form \<Rightarrow> edit \<Rightarrow> form" where
  "type_into f e = onInputChangeHandler (fieldName e) (val e) (ty e) (at_ms e) (elapse (at_ms e) f)"

definition edits :: "edit list \<Rightarrow> form \<Rightarrow> form" where
  "edits es f = foldl type_into f es"

text \<open>
  \<^verbatim>\<open>creditFee\<close> comes from the constants module, which is not among the sources: it is
  an argument here, like the props \<^verbatim>\<open>userId\<close>, \<^verbatim>\<open>type\<close> and \<^verbatim>\<open>creditBalance\<close>
  (\<open>credit_balance\<close> below).
\<close>

definition onTransformHandler :: "object_id \<Rightarrow> int \<Rightarrow> form \<Rightarrow> form" where
  "onTransformHandler userId creditFee f =
     f\<lparr>isTransforming := True,
       transformationConfig := deepMergeObjects (newTransformation f) (transformationConfig f),
       newTransformation := JNull,
       transitions := transitions f @ [(userId, creditFee)]\<rparr>"

subsection \<open>What the form renders\<close>

datatype element =
    InsufficientCreditsModal
  | TitleField
  | AspectRatioField
  | PromptField string
  | ColorField
  | MediaUploader
  | TransformedImage
  | TransformButton bool string
  | SubmitButton bool string

definition render :: "string \<Rightarrow> int \<Rightarrow> int \<Rightarrow> form \<Rightarrow> element list" where
  "render type credit_balance creditFee f =
     (if credit_balance < \<bar>creditFee\<bar> then [InsufficientCreditsModal] else []) @
     [TitleField] @
     (if type = ''fill'' then [AspectRatioField] else []) @
     (if type = ''remove'' \<or> type = ''recolor'' then
        [PromptField (if type = ''remove'' then ''Object to Remove'' else ''Color to Recolor'')] @
        (if type = ''recolor'' then [ColorField] else [])
      else []) @
     [MediaUploader, TransformedImage] @
     [TransformButton (isTransforming f \<or> newTransformation f = JNull)
        (if isTransforming f then ''Transforming...'' else ''Apply Transformation''),
      SubmitButton (isSubmitting f) (if isSubmitting f then ''Submitting...'' else ''Save Image'')]"

section \<open>Concrete deployments used as test inputs\<close>

definition env_up :: env where
  "env_up =
     \<lparr>MONGODB_URL = Some ''mongodb://db'', NEXT_PUBLIC_SERVER_URL = Some ''https://app'',
      connect_outcome = (\<lambda>n. Inr (Mongoose n)),
      sessions_create = (\<lambda>r. Inr ''https://pay/session''),
      initialCredits = 10\<rparr>"

definition env_unset :: env where
  "env_unset = env_up\<lparr>MONGODB_URL := None\<rparr>"

definition env_down :: env where
  "env_down = env_up\<lparr>connect_outcome := (\<lambda>n. Inl (Error ''ECONNREFUSED''))\<rparr>"

definition env_declined :: env where
  "env_declined = env_up\<lparr>sessions_create := (\<lambda>r. Inl (Error ''api_connection_error''))\<rparr>"

text \<open>A store with two users, no transaction, and a script of store faults to set.\<close>

definition alice :: user where
  "alice = \<lparr>clerkId = ''clerk_alice'', profile = [(''email'', JStr ''alice@example.org'')],
            user_id = ''1'', creditBalance = 10\<rparr>"

definition bob :: user where
  "bob = \<lparr>clerkId = ''clerk_bob'', profile = [(''email'', JStr ''bob@example.org'')],
          user_id = ''2'', creditBalance = 0\<rparr>"

definition demo_db :: "error option list \<Rightarrow> db" where
  "demo_db fs =
     \<lparr>cached = cache0, users = [alice, bob], transactions = [], nextId = 3, oplog = [],
      revalidated = [], faults = fs\<rparr>"

definition pro_plan :: "object_id \<Rightarrow> TransactionParams" where
  "pro_plan b = \<lparr>plan = ''Pro'', credits = 120, amount = Fin 10, buyerId = b\<rparr>"

text \<open>A price of 19.99: the double nearest to it.\<close>

definition odd_price :: TransactionParams where
  "odd_price =
     \<lparr>plan = ''Pro'', credits = 120, amount = Fin (5626684784446013 / 281474976710656),
      buyerId = ''1''\<rparr>"

text \<open>The configurations of the spec's merge example, and a form that holds them.\<close>

definition pending_cat :: json where
  "pending_cat = JObj [(''remove'', JObj [(''prompt'', JStr ''cat'')])]"

definition committed_dog :: json where
  "committed_dog =
     JObj [(''remove'', JObj [(''prompt'', JStr ''dog''), (''removeShadow'', JBool True)]),
           (''recolor'', JObj [(''color'', JStr ''red'')])]"

definition merged_cat :: json where
  "merged_cat =
     JObj [(''remove'', JObj [(''prompt'', JStr ''cat''), (''removeShadow'', JBool True)]),
           (''recolor'', JObj [(''color'', JStr ''red'')])]"

definition form0 :: form where
  "form0 =
     \<lparr>newTransformation = JNull, transformationConfig = JNull, isSubmitting = False,
      isTransforming = False, changed = [], transitions = [], timer = None\<rparr>"

text \<open>Five keystrokes into the prompt field within one second.\<close>

definition five_edits :: "edit list" where
  "five_edits =
     [\<lparr>at_ms = 0, fieldName = ''prompt'', val = ''c'', ty = ''remove''\<rparr>,
      \<lparr>at_ms = 120, fieldName = ''prompt'', val = ''ca'', ty = ''remove''\<rparr>,
      \<lparr>at_ms = 300, fieldName = ''prompt'', val = ''cat'', ty = ''remove''\<rparr>,
      \<lparr>at_ms = 640, fieldName = ''prompt'', val = ''cats'', ty = ''remove''\<rparr>,
      \<lparr>at_ms = 999, fieldName = ''prompt'', val = ''cat'', ty = ''remove''\<rparr>]"

text \<open>Values that are neither absent nor containers.\<close>

fun scalar :: "json \<Rightarrow> bool" where
  "scalar (JBool b) = True"
| "scalar (JNum n) = True"
| "scalar (JStr s) = True"
| "scalar _ = False"

section \<open>Invariants used in the proofs\<close>

text \<open>
  The cache after the one call of \<^verbatim>\<open>mongoose.connect\<close>, and the invariant of every
  schedule of calls: either nothing has happened yet, or the connection was requested
  once, every suspended call waits for that request's promise, every finished call got
  its outcome, and the handle slot is empty or holds the handle it resolved with.
\<close>

definition opened :: "string \<Rightarrow> cache \<Rightarrow> bool" where
  "opened u c = (promise c = Some (Promise 0) \<and> requests c = [the_request u])"

definition conn_inv :: "env \<Rightarrow> string \<Rightarrow> sys \<Rightarrow> bool" where
  "conn_inv E u s =
     ((store s = cache0 \<and> waiting s = [] \<and> returned s = []) \<or>
      (opened u (store s) \<and> set (waiting s) \<subseteq> {Promise 0} \<and>
       set (returned s) \<subseteq> {connect_outcome E 0} \<and>
       (case conn (store s) of None \<Rightarrow> True | Some m \<Rightarrow> connect_outcome E 0 = Inr m)))"

section \<open>The connection manager: proofs\<close>

lemma set_drop_nth: "set (drop_nth i xs) \<subseteq> set xs"
  by (auto simp: drop_nth_def dest: in_set_takeD in_set_dropD)

lemma connect_begin_cache0:
  assumes "MONGODB_URL E = Some u" "u \<noteq> []"
  shows "connect_begin E cache0 =
    (Awaiting (Promise 0), \<lparr>conn = None, promise = Some (Promise 0), requests = [the_request u]\<rparr>)"
  using assms by (simp add: connect_begin_def cache0_def the_request_def)

lemma connect_begin_opened:
  assumes "MONGODB_URL E = Some u" "u \<noteq> []" "opened u c"
  shows "connect_begin E c =
    (case conn c of Some m \<Rightarrow> (Done (Inr m), c) | None \<Rightarrow> (Awaiting (Promise 0), c))"
  using assms by (simp add: connect_begin_def opened_def split: option.splits)

lemma conn_inv_step:
  assumes "MONGODB_URL E = Some u" "u \<noteq> []" "conn_inv E u s"
  shows "conn_inv E u (step E s ev)"
proof (cases ev)
  case Call
  from assms(3) consider
      (fresh) "store s = cache0" "waiting s = []" "returned s = []"
    | (live) "opened u (store s)" "set (waiting s) \<subseteq> {Promise 0}"
        "set (returned s) \<subseteq> {connect_outcome E 0}"
        "(case conn (store s) of None \<Rightarrow> True | Some m \<Rightarrow> connect_outcome E 0 = Inr m)"
    unfolding conn_inv_def by blast
  then show ?thesis
  proof cases
    case fresh
    then show ?thesis unfolding Call
      by (simp add: connect_begin_cache0 [OF assms(1,2)] conn_inv_def opened_def)
  next
    case live
    show ?thesis
    proof (cases "conn (store s)")
      case None
      have "step E s Call = s\<lparr>store := store s, waiting := waiting s @ [Promise 0],
          assigned := assigned s @ [PromiseSlot]\<rparr>"
        by (simp add: connect_begin_opened [OF assms(1,2) live(1)] None)
      moreover have "conn_inv E u (s\<lparr>store := store s, waiting := waiting s @ [Promise 0],
          assigned := assigned s @ [PromiseSlot]\<rparr>)"
        unfolding conn_inv_def using live(1,2,3) None by simp
      ultimately show ?thesis unfolding Call by (simp only:)
    next
      case (Some m)
      have "step E s Call = s\<lparr>store := store s, returned := returned s @ [Inr m]\<rparr>"
        by (simp add: connect_begin_opened [OF assms(1,2) live(1)] Some)
      moreover have "conn_inv E u (s\<lparr>store := store s, returned := returned s @ [Inr m]\<rparr>)"
        unfolding conn_inv_def using live Some by simp
      ultimately show ?thesis unfolding Call by (simp only:)
    qed
  qed
next
  case (Wake i)
  show ?thesis
  proof (cases "i < length (waiting s)")
    case False
    then show ?thesis using assms Wake by simp
  next
    case True
    from assms(3) True have st: "opened u (store s)" "set (waiting s) \<subseteq> {Promise 0}"
      "set (returned s) \<subseteq> {connect_outcome E 0}"
      "(case conn (store s) of None \<Rightarrow> True | Some m \<Rightarrow> connect_outcome E 0 = Inr m)"
      by (auto simp: conn_inv_def)
    from True st(2) have w: "waiting s ! i = Promise 0"
      using nth_mem by fastforce
    have d: "set (drop_nth i (waiting s)) \<subseteq> {Promise 0}"
      by (rule subset_trans [OF set_drop_nth st(2)])
    show ?thesis
    proof (cases "connect_outcome E 0")
      case (Inl e)
      have "step E s (Wake i) =
          s\<lparr>store := store s, waiting := drop_nth i (waiting s), returned := returned s @ [Inl e],
            assigned := assigned s @ []\<rparr>"
        using True by (simp add: connect_resume_def w Inl)
      moreover have "conn_inv E u
          (s\<lparr>store := store s, waiting := drop_nth i (waiting s), returned := returned s @ [Inl e],
            assigned := assigned s @ []\<rparr>)"
        unfolding conn_inv_def using st d Inl by simp
      ultimately show ?thesis unfolding Wake by (simp only:)
    next
      case (Inr m)
      have "step E s (Wake i) =
          s\<lparr>store := (store s)\<lparr>conn := Some m\<rparr>, waiting := drop_nth i (waiting s),
            returned := returned s @ [Inr m], assigned := assigned s @ [ConnSlot]\<rparr>"
        using True by (simp add: connect_resume_def w Inr)
      moreover have "conn_inv E u
          (s\<lparr>store := (store s)\<lparr>conn := Some m\<rparr>, waiting := drop_nth i (waiting s),
            returned := returned s @ [Inr m], assigned := assigned s @ [ConnSlot]\<rparr>)"
        unfolding conn_inv_def using st(1,3) d Inr by (simp add: opened_def)
      ultimately show ?thesis unfolding Wake by (simp only:)
    qed
  qed
qed

lemma conn_inv_run:
  assumes "MONGODB_URL E = Some u" "u \<noteq> []"
  shows "conn_inv E u s \<Longrightarrow> conn_inv E u (run E es s)"
  unfolding run_def
  by (induction es arbitrary: s) (simp_all add: conn_inv_step [OF assms])

lemma conn_inv_sys0: "conn_inv E u sys0"
  by (simp add: conn_inv_def sys0_def)


lemma conn_inv_stable_step:
  assumes "MONGODB_URL E = Some u" "u \<noteq> []" "conn_inv E u s"
  shows "conn (store s) = Some x \<Longrightarrow> conn (store (step E s ev)) = Some x"
    and "promise (store s) = Some p \<Longrightarrow> promise (store (step E s ev)) = Some p"
proof -
  have nf: "conn (store s) = Some x \<or> promise (store s) = Some p \<Longrightarrow> opened u (store s) \<and>
      set (waiting s) \<subseteq> {Promise 0} \<and>
      (case conn (store s) of None \<Rightarrow> True | Some m \<Rightarrow> connect_outcome E 0 = Inr m)"
    using assms(3) by (auto simp: conn_inv_def cache0_def)
  {
    assume a: "conn (store s) = Some x"
    with nf have op: "opened u (store s)" and w: "set (waiting s) \<subseteq> {Promise 0}"
      and o: "connect_outcome E 0 = Inr x" by auto
    show "conn (store (step E s ev)) = Some x"
    proof (cases ev)
      case Call
      then show ?thesis using a by (simp add: connect_begin_opened [OF assms(1,2) op])
    next
      case (Wake i)
      show ?thesis
      proof (cases "i < length (waiting s)")
        case True
        with w have "waiting s ! i = Promise 0" using nth_mem by fastforce
        then show ?thesis using True a o unfolding Wake by (simp add: connect_resume_def)
      next
        case False
        then show ?thesis using a unfolding Wake by simp
      qed
    qed
  }
  {
    assume a: "promise (store s) = Some p"
    with nf have op: "opened u (store s)" by auto
    show "promise (store (step E s ev)) = Some p"
    proof (cases ev)
      case Call
      then show ?thesis using a
        by (simp add: connect_begin_opened [OF assms(1,2) op] split: option.splits)
    next
      case (Wake i)
      show ?thesis using a unfolding Wake
        by (simp add: connect_resume_def split: sum.splits)
    qed
  }
qed

lemma conn_inv_stable_run:
  assumes "MONGODB_URL E = Some u" "u \<noteq> []"
  shows "conn_inv E u s \<Longrightarrow> conn (store s) = Some x \<Longrightarrow> conn (store (run E es s)) = Some x"
    and "conn_inv E u s \<Longrightarrow> promise (store s) = Some p \<Longrightarrow> promise (store (run E es s)) = Some p"
  unfolding run_def
  by (induction es arbitrary: s)
     (simp_all add: conn_inv_step [OF assms] conn_inv_stable_step [OF assms])

lemma run_append: "run E (es @ es') s = run E es' (run E es s)"
  by (simp add: run_def)

lemma connect_begin_unset:
  assumes "MONGODB_URL E = None \<or> MONGODB_URL E = Some []"
  shows "connect_begin E cache0 = (Done (Inl config_error), cache0)"
  using assms by (auto simp: connect_begin_def cache0_def config_error_def)

lemma unset_step:
  assumes "MONGODB_URL E = None \<or> MONGODB_URL E = Some []"
    and "store s = cache0" "waiting s = []" "set (returned s) \<subseteq> {Inl config_error}"
  shows "store (step E s ev) = cache0 \<and> waiting (step E s ev) = [] \<and>
    set (returned (step E s ev)) \<subseteq> {Inl config_error}"
  using assms(2-) by (cases ev) (simp_all add: connect_begin_unset [OF assms(1)])

lemma unset_run:
  assumes "MONGODB_URL E = None \<or> MONGODB_URL E = Some []"
  shows "store s = cache0 \<Longrightarrow> waiting s = [] \<Longrightarrow> set (returned s) \<subseteq> {Inl config_error} \<Longrightarrow>
    store (run E es s) = cache0 \<and> waiting (run E es s) = [] \<and>
    set (returned (run E es s)) \<subseteq> {Inl config_error}"
  unfolding run_def
proof (induction es arbitrary: s)
  case Nil
  then show ?case by simp
next
  case (Cons ev es)
  from unset_step [OF assms Cons.prems, of ev] show ?case
    by (simp add: Cons.IH)
qed

lemma length_drop_nth: "i < length xs \<Longrightarrow> length (drop_nth i xs) = length xs - 1"
  by (simp add: drop_nth_def)

lemma step_count:
  "length (returned (step E s ev)) + length (waiting (step E s ev)) =
     length (returned s) + length (waiting s) + (if ev = Call then 1 else 0)"
proof (cases ev)
  case Call
  obtain ph c' where b: "connect_begin E (store s) = (ph, c')"
    by (cases "connect_begin E (store s)")
  show ?thesis unfolding Call by (cases ph) (simp_all add: b)
next
  case (Wake i)
  show ?thesis
  proof (cases "i < length (waiting s)")
    case True
    obtain r c' where b: "connect_resume E (waiting s ! i) (store s) = (r, c')"
      by (cases "connect_resume E (waiting s ! i) (store s)")
    from True show ?thesis unfolding Wake by (simp add: b length_drop_nth)
  next
    case False
    then show ?thesis unfolding Wake by simp
  qed
qed

lemma run_count:
  "length (returned (run E es s)) + length (waiting (run E es s)) =
     length (returned s) + length (waiting s) + count_list es Call"
  unfolding run_def
proof (induction es arbitrary: s)
  case Nil
  then show ?case by simp
next
  case (Cons ev es)
  show ?case using Cons.IH [of "step E s ev"] step_count [of E s ev] by simp
qed

lemma count_list_pos: "x \<in> set xs \<Longrightarrow> 0 < count_list xs x"
  by (induction xs) auto

lemma called_opened:
  assumes "MONGODB_URL E = Some u" "u \<noteq> []" "Call \<in> set es"
  shows "opened u (store (run E es sys0))"
proof -
  have inv: "conn_inv E u (run E es sys0)"
    by (rule conn_inv_run [OF assms(1,2) conn_inv_sys0])
  from run_count [of E es sys0] count_list_pos [OF assms(3)]
  have "length (returned (run E es sys0)) + length (waiting (run E es sys0)) > 0"
    by (simp add: sys0_def)
  then have "\<not> (waiting (run E es sys0) = [] \<and> returned (run E es sys0) = [])" by auto
  with inv show ?thesis by (auto simp: conn_inv_def)
qed

lemma returned_conn_step:
  assumes "MONGODB_URL E = Some u" "u \<noteq> []" "connect_outcome E 0 = Inr m" "conn_inv E u s"
    and "returned s = [] \<or> conn (store s) = Some m"
  shows "returned (step E s ev) = [] \<or> conn (store (step E s ev)) = Some m"
proof (cases ev)
  case Call
  from assms(4) consider
      (fresh) "store s = cache0" "waiting s = []" "returned s = []"
    | (live) "opened u (store s)"
    unfolding conn_inv_def by blast
  then show ?thesis
  proof cases
    case fresh
    then show ?thesis unfolding Call
      by (simp add: connect_begin_cache0 [OF assms(1,2)])
  next
    case live
    show ?thesis
    proof (cases "conn (store s)")
      case None
      with assms(5) show ?thesis unfolding Call
        by (simp add: connect_begin_opened [OF assms(1,2) live])
    next
      case (Some m')
      with assms(4) live have "m' = m"
        by (auto simp: conn_inv_def cache0_def assms(3))
      with Some show ?thesis unfolding Call
        by (simp add: connect_begin_opened [OF assms(1,2) live])
    qed
  qed
next
  case (Wake i)
  show ?thesis
  proof (cases "i < length (waiting s)")
    case False
    with assms(5) show ?thesis unfolding Wake by simp
  next
    case True
    with assms(4) have "set (waiting s) \<subseteq> {Promise 0}"
      by (auto simp: conn_inv_def)
    with True have "waiting s ! i = Promise 0" using nth_mem by fastforce
    with True show ?thesis unfolding Wake
      by (simp add: connect_resume_def assms(3))
  qed
qed

lemma returned_conn_run:
  assumes "MONGODB_URL E = Some u" "u \<noteq> []" "connect_outcome E 0 = Inr m"
  shows "conn_inv E u s \<Longrightarrow> returned s = [] \<or> conn (store s) = Some m \<Longrightarrow>
    returned (run E es s) = [] \<or> conn (store (run E es s)) = Some m"
  unfolding run_def
proof (induction es arbitrary: s)
  case Nil
  then show ?case by simp
next
  case (Cons ev es)
  from conn_inv_step [OF assms(1,2) Cons.prems(1)]
    returned_conn_step [OF assms Cons.prems]
  show ?case by (simp add: Cons.IH)
qed

lemma drain_waiting:
  "length (waiting s) = n \<Longrightarrow> waiting (run E (replicate n (Wake 0)) s) = []"
  unfolding run_def
proof (induction n arbitrary: s)
  case 0
  then show ?case by simp
next
  case (Suc n)
  obtain r c' where b: "connect_resume E (waiting s ! 0) (store s) = (r, c')"
    by (cases "connect_resume E (waiting s ! 0) (store s)")
  from Suc.prems have "length (waiting (step E s (Wake 0))) = n"
    by (simp add: b length_drop_nth)
  from Suc.IH [OF this] show ?case by simp
qed

lemma all_same: "set xs \<subseteq> {x} \<Longrightarrow> xs = replicate (length xs) x"
  by (induction xs) auto

text \<open>
  Claim C7, as stated, fails in its last clause: when a second call starts before the
  first connection has resolved, both calls pass the fast path, both execute the
  assignment to \<^verbatim>\<open>cached.promise\<close> and, once the promise has resolved, both execute the
  assignment to \<^verbatim>\<open>cached.conn\<close>. Each slot is written twice.
\<close>

theorem cached_written_twice_counterexample:
  "returned (run env_up [Call, Call, Wake 0, Wake 0] sys0) = [Inr (Mongoose 0), Inr (Mongoose 0)] \<and>
   assigned (run env_up [Call, Call, Wake 0, Wake 0] sys0) =
     [PromiseSlot, PromiseSlot, ConnSlot, ConnSlot] \<and>
   count_list (assigned (run env_up [Call, Call, Wake 0, Wake 0] sys0)) PromiseSlot = 2 \<and>
   count_list (assigned (run env_up [Call, Call, Wake 0, Wake 0] sys0)) ConnSlot = 2"
  by (simp add: run_def sys0_def cache0_def connect_begin_def connect_resume_def env_up_def
      drop_nth_def)

lemma two_concurrent_calls:
  assumes "MONGODB_URL E = Some u" "u \<noteq> []" "connect_outcome E 0 = Inr m"
  shows "run E [Call, Call, Wake 0, Wake 0] sys0 =
    \<lparr>store = \<lparr>conn = Some m, promise = Some (Promise 0), requests = [the_request u]\<rparr>,
     waiting = [], returned = [Inr m, Inr m],
     assigned = [PromiseSlot, PromiseSlot, ConnSlot, ConnSlot]\<rparr>"
  using assms
  by (simp add: run_def sys0_def cache0_def connect_begin_def connect_resume_def drop_nth_def)

text \<open>
  Claim C7, amended. Without the connection string every call fails with the
  configuration error and the cache is never touched. With it, and a connection attempt
  that succeeds: the first call sends one request with \<^verbatim>\<open>bufferCommands\<close> off and leaves
  the promise and the handle in the cache; a later call returns that handle from the
  cache as it is; two calls that overlap both return that handle after one request,
  each of them assigning both slots. Under every schedule of calls, interleaved at the
  \<^verbatim>\<open>await\<close> or not: every call has either returned or is suspended, every call that
  has returned returned that handle, and once the suspended calls are resumed all of
  them have; as soon as one call has started the cache holds the promise of the one
  request ever sent, and as soon as one has returned it holds the handle; a slot that
  holds a value holds the same value ever after, so that a repeated assignment stores
  the value already there.
\<close>

theorem connectToDatabase_cached_once:
  "(MONGODB_URL E = None \<longrightarrow>
      connectToDatabase E cache0 = (Inl config_error, cache0) \<and>
      store (run E es sys0) = cache0 \<and>
      returned (run E es sys0) = replicate (count_list es Call) (Inl config_error)) \<and>
   (MONGODB_URL E = Some u \<and> u \<noteq> [] \<and> connect_outcome E 0 = Inr m \<longrightarrow>
      connectToDatabase E cache0 =
        (Inr m, \<lparr>conn = Some m, promise = Some (Promise 0),
                 requests = [\<lparr>url = u, dbName = ''imaginify'', bufferCommands = False\<rparr>]\<rparr>) \<and>
      connectToDatabase E \<lparr>conn = Some m, promise = Some (Promise 0), requests = [the_request u]\<rparr> =
        (Inr m, \<lparr>conn = Some m, promise = Some (Promise 0), requests = [the_request u]\<rparr>) \<and>
      run E [Call, Call, Wake 0, Wake 0] sys0 =
        \<lparr>store = \<lparr>conn = Some m, promise = Some (Promise 0), requests = [the_request u]\<rparr>,
         waiting = [], returned = [Inr m, Inr m],
         assigned = [PromiseSlot, PromiseSlot, ConnSlot, ConnSlot]\<rparr> \<and>
      length (returned (run E es sys0)) + length (waiting (run E es sys0)) = count_list es Call \<and>
      set (returned (run E es sys0)) \<subseteq> {Inr m} \<and>
      returned (run E (es @ replicate (length (waiting (run E es sys0))) (Wake 0)) sys0) =
        replicate (count_list es Call) (Inr m) \<and>
      (Call \<in> set es \<longrightarrow>
         promise (store (run E es sys0)) = Some (Promise 0) \<and>
         requests (store (run E es sys0)) = [the_request u]) \<and>
      (returned (run E es sys0) \<noteq> [] \<longrightarrow> conn (store (run E es sys0)) = Some m) \<and>
      set (requests (store (run E es sys0))) \<subseteq> {the_request u} \<and>
      length (requests (store (run E es sys0))) \<le> 1 \<and>
      (\<forall>x. conn (store (run E es sys0)) = Some x \<longrightarrow>
         conn (store (run E (es @ es') sys0)) = Some x) \<and>
      (\<forall>p. promise (store (run E es sys0)) = Some p \<longrightarrow>
         promise (store (run E (es @ es') sys0)) = Some p))"
proof (intro conjI impI)
  assume a: "MONGODB_URL E = None"
  then have a': "MONGODB_URL E = None \<or> MONGODB_URL E = Some []" by simp
  show "connectToDatabase E cache0 = (Inl config_error, cache0)"
    by (simp add: connectToDatabase_def connect_begin_unset [OF a'])
  have r: "store (run E es sys0) = cache0 \<and> waiting (run E es sys0) = [] \<and>
      set (returned (run E es sys0)) \<subseteq> {Inl config_error}"
    by (rule unset_run [OF a']) (simp_all add: sys0_def)
  then show "store (run E es sys0) = cache0" by simp
  from r run_count [of E es sys0]
  have "length (returned (run E es sys0)) = count_list es Call"
    by (simp add: sys0_def)
  with r all_same [of "returned (run E es sys0)" "Inl config_error"]
  show "returned (run E es sys0) = replicate (count_list es Call) (Inl config_error)"
    by simp
next
  assume b: "MONGODB_URL E = Some u \<and> u \<noteq> [] \<and> connect_outcome E 0 = Inr m"
  then have u: "MONGODB_URL E = Some u" "u \<noteq> []" and o: "connect_outcome E 0 = Inr m"
    by simp_all
  show "connectToDatabase E cache0 =
      (Inr m, \<lparr>conn = Some m, promise = Some (Promise 0),
               requests = [\<lparr>url = u, dbName = ''imaginify'', bufferCommands = False\<rparr>]\<rparr>)"
    by (simp add: connectToDatabase_def connect_begin_cache0 [OF u] connect_resume_def o
        the_request_def)
  have op: "opened u \<lparr>conn = Some m, promise = Some (Promise 0), requests = [the_request u]\<rparr>"
    by (simp add: opened_def)
  show "connectToDatabase E \<lparr>conn = Some m, promise = Some (Promise 0), requests = [the_request u]\<rparr> =
      (Inr m, \<lparr>conn = Some m, promise = Some (Promise 0), requests = [the_request u]\<rparr>)"
    by (simp add: connectToDatabase_def connect_begin_opened [OF u op])
  show "run E [Call, Call, Wake 0, Wake 0] sys0 =
        \<lparr>store = \<lparr>conn = Some m, promise = Some (Promise 0), requests = [the_request u]\<rparr>,
         waiting = [], returned = [Inr m, Inr m],
         assigned = [PromiseSlot, PromiseSlot, ConnSlot, ConnSlot]\<rparr>"
    by (rule two_concurrent_calls [OF u o])
  show "length (returned (run E es sys0)) + length (waiting (run E es sys0)) = count_list es Call"
    using run_count [of E es sys0] by (simp add: sys0_def)
  have inv: "conn_inv E u (run E es sys0)" for es
    by (rule conn_inv_run [OF u conn_inv_sys0])
  have ret: "set (returned (run E es sys0)) \<subseteq> {Inr m}" for es
    using inv [of es] by (auto simp: conn_inv_def o)
  show "set (returned (run E es sys0)) \<subseteq> {Inr m}" by (rule ret)
  show "returned (run E (es @ replicate (length (waiting (run E es sys0))) (Wake 0)) sys0) =
        replicate (count_list es Call) (Inr m)"
  proof -
    let ?n = "length (waiting (run E es sys0))"
    let ?es = "es @ replicate ?n (Wake 0)"
    have w: "waiting (run E ?es sys0) = []"
      by (simp add: run_append drain_waiting)
    have "count_list (replicate k (Wake 0)) Call = 0" for k
      by (induction k) simp_all
    then have "count_list ?es Call = count_list es Call" by simp
    with run_count [of E ?es sys0] w
    have "length (returned (run E ?es sys0)) = count_list es Call"
      by (simp add: sys0_def)
    with all_same [OF ret [of ?es]] show ?thesis by simp
  qed
  show "promise (store (run E es sys0)) = Some (Promise 0)" if "Call \<in> set es"
    using called_opened [OF u that] by (simp add: opened_def)
  show "requests (store (run E es sys0)) = [the_request u]" if "Call \<in> set es"
    using called_opened [OF u that] by (simp add: opened_def)
  show "conn (store (run E es sys0)) = Some m" if "returned (run E es sys0) \<noteq> []"
    using returned_conn_run [OF u o conn_inv_sys0, of es] that by (simp add: sys0_def)
  from inv [of es] show "set (requests (store (run E es sys0))) \<subseteq> {the_request u}"
    by (auto simp: conn_inv_def opened_def cache0_def)
  from inv [of es] show "length (requests (store (run E es sys0))) \<le> 1"
    by (auto simp: conn_inv_def opened_def cache0_def)
  show "\<forall>x. conn (store (run E es sys0)) = Some x \<longrightarrow>
         conn (store (run E (es @ es') sys0)) = Some x"
    by (simp add: run_append conn_inv_stable_run(1) [OF u inv])
  show "\<forall>p. promise (store (run E es sys0)) = Some p \<longrightarrow>
         promise (store (run E (es @ es') sys0)) = Some p"
    by (simp add: run_append conn_inv_stable_run(2) [OF u inv])
qed

theorem connectToDatabase_cached_once_witness:
  "MONGODB_URL env_unset = None \<and>
   returned (run env_unset [Call, Call] sys0) = [Inl config_error, Inl config_error] \<and>
   MONGODB_URL env_up = Some ''mongodb://db'' \<and> ''mongodb://db'' \<noteq> [] \<and>
   connect_outcome env_up 0 = Inr (Mongoose 0) \<and>
   Call \<in> set [Call, Call, Wake 1, Call] \<and>
   requests (store (run env_up [Call, Call, Wake 1, Call] sys0)) = [the_request ''mongodb://db''] \<and>
   returned (run env_up [Call, Call, Wake 1, Call] sys0) \<noteq> [] \<and>
   conn (store (run env_up [Call, Call, Wake 1, Call] sys0)) = Some (Mongoose 0) \<and>
   conn (store (run env_up ([Call, Call, Wake 1, Call] @ [Wake 0, Call]) sys0)) = Some (Mongoose 0) \<and>
   returned (run env_up ([Call, Call, Wake 1, Call] @
       replicate (length (waiting (run env_up [Call, Call, Wake 1, Call] sys0))) (Wake 0)) sys0) =
     [Inr (Mongoose 0), Inr (Mongoose 0), Inr (Mongoose 0)]"
proof -
  let ?es = "[Call, Call, Wake 1, Call]"
  have h1: "MONGODB_URL env_unset = None"
    by (simp add: env_unset_def)
  have h2: "MONGODB_URL env_up = Some ''mongodb://db'' \<and> ''mongodb://db'' \<noteq> [] \<and>
      connect_outcome env_up 0 = Inr (Mongoose 0)"
    by (simp add: env_up_def)
  have h3: "Call \<in> set ?es" by simp
  have h4: "returned (run env_up ?es sys0) \<noteq> []"
    by (simp add: run_def sys0_def cache0_def connect_begin_def connect_resume_def env_up_def
        drop_nth_def)
  from h1 connectToDatabase_cached_once [of env_unset "[Call, Call]"]
  have "returned (run env_unset [Call, Call] sys0) =
      replicate (count_list [Call, Call] Call) (Inl config_error)"
    by blast
  then have c1: "returned (run env_unset [Call, Call] sys0) = [Inl config_error, Inl config_error]"
    by (simp add: numeral_2_eq_2)
  note up = connectToDatabase_cached_once
    [of env_up ?es "''mongodb://db''" "Mongoose 0" "[Wake 0, Call]"]
  from h2 h3 up
  have c2: "requests (store (run env_up ?es sys0)) = [the_request ''mongodb://db'']"
    by blast
  from h2 h4 up have c3: "conn (store (run env_up ?es sys0)) = Some (Mongoose 0)"
    by blast
  from h2 c3 up have c4: "conn (store (run env_up (?es @ [Wake 0, Call]) sys0)) = Some (Mongoose 0)"
    by blast
  from h2 up have "returned (run env_up (?es @
       replicate (length (waiting (run env_up ?es sys0))) (Wake 0)) sys0) =
     replicate (count_list ?es Call) (Inr (Mongoose 0))"
    by blast
  then have c5: "returned (run env_up (?es @
       replicate (length (waiting (run env_up ?es sys0))) (Wake 0)) sys0) =
     [Inr (Mongoose 0), Inr (Mongoose 0), Inr (Mongoose 0)]"
    by (simp add: numeral_3_eq_3)
  from h1 c1 h2 h3 c2 h4 c3 c4 c5 show ?thesis by blast
qed

text \<open>
  Claim C10. When the first connection attempt is rejected, the first call throws the
  rejection and leaves the rejected promise in the cache with the handle slot empty.
  From then on a call throws the same rejection and leaves the cache as it is, so no
  second connection is ever requested, under every schedule of later calls.
\<close>

theorem connectToDatabase_failure_sticks:
  assumes "MONGODB_URL E = Some u" "u \<noteq> []" "connect_outcome E 0 = Inl e"
  shows "connectToDatabase E cache0 =
      (Inl e, \<lparr>conn = None, promise = Some (Promise 0), requests = [the_request u]\<rparr>) \<and>
    connectToDatabase E \<lparr>conn = None, promise = Some (Promise 0), requests = [the_request u]\<rparr> =
      (Inl e, \<lparr>conn = None, promise = Some (Promise 0), requests = [the_request u]\<rparr>) \<and>
    store (run E es
          \<lparr>store = \<lparr>conn = None, promise = Some (Promise 0), requests = [the_request u]\<rparr>,
           waiting = [], returned = [], assigned = []\<rparr>) =
        \<lparr>conn = None, promise = Some (Promise 0), requests = [the_request u]\<rparr> \<and>
    set (returned (run E es
          \<lparr>store = \<lparr>conn = None, promise = Some (Promise 0), requests = [the_request u]\<rparr>,
           waiting = [], returned = [], assigned = []\<rparr>)) \<subseteq> {Inl e} \<and>
    conn (store (run E es sys0)) = None \<and>
    set (returned (run E es sys0)) \<subseteq> {Inl e} \<and>
    length (requests (store (run E es sys0))) \<le> 1"
proof -
  let ?c = "\<lparr>conn = None, promise = Some (Promise 0), requests = [the_request u]\<rparr>"
  let ?s = "\<lparr>store = ?c, waiting = [], returned = [], assigned = []\<rparr>"
  have first: "connectToDatabase E cache0 = (Inl e, ?c)"
    by (simp add: connectToDatabase_def connect_begin_cache0 [OF assms(1,2)] connect_resume_def assms(3))
  have op: "opened u ?c" by (simp add: opened_def)
  have again: "connectToDatabase E ?c = (Inl e, ?c)"
    by (simp add: connectToDatabase_def connect_begin_opened [OF assms(1,2) op] connect_resume_def assms(3))
  have "conn_inv E u ?s" by (simp add: conn_inv_def opened_def)
  then have inv: "conn_inv E u (run E es ?s)"
    by (rule conn_inv_run [OF assms(1,2)])
  then have ret: "set (returned (run E es ?s)) \<subseteq> {Inl e}"
    by (auto simp: conn_inv_def assms(3))
  have p: "promise (store (run E es ?s)) = Some (Promise 0)"
    by (rule conn_inv_stable_run(2) [OF assms(1,2)]) (simp_all add: conn_inv_def opened_def)
  with inv have "opened u (store (run E es ?s))"
    and "conn (store (run E es ?s)) = None"
    by (auto simp: conn_inv_def cache0_def assms(3) split: option.splits)
  then have same: "store (run E es ?s) = ?c"
    by (simp add: opened_def cache.equality)
  have inv0: "conn_inv E u (run E es sys0)"
    by (rule conn_inv_run [OF assms(1,2) conn_inv_sys0])
  then have c0: "conn (store (run E es sys0)) = None"
    by (auto simp: conn_inv_def cache0_def assms(3) split: option.splits)
  from inv0 have r0: "set (returned (run E es sys0)) \<subseteq> {Inl e}"
    by (auto simp: conn_inv_def assms(3))
  from inv0 have l0: "length (requests (store (run E es sys0))) \<le> 1"
    by (auto simp: conn_inv_def opened_def cache0_def)
  from first again same ret c0 r0 l0 show ?thesis by simp
qed

theorem connectToDatabase_failure_sticks_witness:
  "MONGODB_URL env_down = Some ''mongodb://db'' \<and> ''mongodb://db'' \<noteq> [] \<and>
   connect_outcome env_down 0 = Inl (Error ''ECONNREFUSED'') \<and>
   connectToDatabase env_down cache0 =
      (Inl (Error ''ECONNREFUSED''),
       \<lparr>conn = None, promise = Some (Promise 0), requests = [the_request ''mongodb://db'']\<rparr>) \<and>
   set (returned (run env_down [Call, Wake 0, Call, Call, Wake 1, Wake 0] sys0))
     \<subseteq> {Inl (Error ''ECONNREFUSED'')}"
proof -
  have h: "MONGODB_URL env_down = Some ''mongodb://db''" "''mongodb://db'' \<noteq> []"
    "connect_outcome env_down 0 = Inl (Error ''ECONNREFUSED'')"
    by (simp_all add: env_down_def env_up_def)
  from h connectToDatabase_failure_sticks [OF h, of "[Call, Wake 0, Call, Call, Wake 1, Wake 0]"]
  show ?thesis by blast
qed

section \<open>The persistence operations: proofs\<close>

lemma connectToDatabase_conn:
  "fst (connectToDatabase E c) = Inr m \<Longrightarrow> conn (snd (connectToDatabase E c)) = Some m"
  by (auto simp: connectToDatabase_def connect_begin_def connect_resume_def
      split: option.splits if_splits sum.splits)

lemma connected_ok:
  assumes "fst (connected E st) = Inr m"
  obtains c where "connected E st = (Inr m, st\<lparr>cached := c\<rparr>)" "conn c = Some m"
proof -
  obtain r c where rc: "connectToDatabase E (cached st) = (r, c)"
    by (cases "connectToDatabase E (cached st)")
  with assms have "r = Inr m" by (simp add: connected_def)
  moreover from connectToDatabase_conn [of E "cached st" m] rc \<open>r = Inr m\<close>
  have "conn c = Some m" by simp
  ultimately show thesis using rc that by (simp add: connected_def)
qed

lemma connected_again:
  "conn (cached st) = Some m \<Longrightarrow> connected E st = (Inr m, st)"
  by (simp add: connected_def connectToDatabase_def connect_begin_def)

lemma connected_fail:
  assumes "fst (connected E st) = Inl e"
  obtains c where "connected E st = (Inl e, st\<lparr>cached := c\<rparr>)"
  using assms by (cases "connectToDatabase E (cached st)") (simp add: connected_def)

lemma script_at_tl [simp]: "script_at n (tl fs) = script_at (Suc n) fs"
  by (simp add: script_at_def drop_Suc)

lemma find_update_first:
  assumes "\<And>x. q x \<Longrightarrow> q (f x)"
  shows "find q (update_first q f xs) = map_option f (find q xs)"
  using assms by (induction xs) auto

lemma update_first_none: "find q xs = None \<Longrightarrow> update_first q f xs = xs"
  by (induction xs) (auto split: if_splits)

lemma updateCredits_found:
  assumes "fst (connected E st) = Inr m" "fault_at 0 st = None"
    and "find (\<lambda>u. user_id u = userId) (users st) = Some u"
  shows "fst (updateCredits h E userId d st) =
      Inr (Some (user_json (u\<lparr>creditBalance := creditBalance u + d\<rparr>)))"
    and "find (\<lambda>u. user_id u = userId) (users (snd (updateCredits h E userId d st))) =
      Some (u\<lparr>creditBalance := creditBalance u + d\<rparr>)"
    and "oplog (snd (updateCredits h E userId d st)) = oplog st @ [FindOneAndUpdate Users]"
    and "transactions (snd (updateCredits h E userId d st)) = transactions st"
proof -
  from assms(1) obtain c where c: "connected E st = (Inr m, st\<lparr>cached := c\<rparr>)"
    by (rule connected_ok)
  show "fst (updateCredits h E userId d st) =
      Inr (Some (user_json (u\<lparr>creditBalance := creditBalance u + d\<rparr>)))"
    using assms(2,3) by (simp add: updateCredits_def c User_findOneAndUpdate_def perform_def fault_at_def)
  show "find (\<lambda>u. user_id u = userId) (users (snd (updateCredits h E userId d st))) =
      Some (u\<lparr>creditBalance := creditBalance u + d\<rparr>)"
    using assms(2,3)
    by (simp add: updateCredits_def c User_findOneAndUpdate_def perform_def fault_at_def find_update_first)
  show "oplog (snd (updateCredits h E userId d st)) = oplog st @ [FindOneAndUpdate Users]"
    using assms(2,3) by (simp add: updateCredits_def c User_findOneAndUpdate_def perform_def fault_at_def)
  show "transactions (snd (updateCredits h E userId d st)) = transactions st"
    using assms(2,3) by (simp add: updateCredits_def c User_findOneAndUpdate_def perform_def fault_at_def)
qed

lemma updateCredits_missing:
  assumes "fst (connected E st) = Inr m" "fault_at 0 st = None"
    and "find (\<lambda>u. user_id u = userId) (users st) = None"
  shows "fst (updateCredits h E userId d st) = caught h (Error ''User credits update failed'')"
    and "users (snd (updateCredits h E userId d st)) = users st"
    and "oplog (snd (updateCredits h E userId d st)) = oplog st @ [FindOneAndUpdate Users]"
    and "transactions (snd (updateCredits h E userId d st)) = transactions st"
proof -
  from assms(1) obtain c where c: "connected E st = (Inr m, st\<lparr>cached := c\<rparr>)"
    by (rule connected_ok)
  show "fst (updateCredits h E userId d st) = caught h (Error ''User credits update failed'')"
    using assms(2,3) by (simp add: updateCredits_def c User_findOneAndUpdate_def perform_def fault_at_def)
  show "users (snd (updateCredits h E userId d st)) = users st"
    using assms(2,3)
    by (simp add: updateCredits_def c User_findOneAndUpdate_def perform_def fault_at_def update_first_none)
  show "oplog (snd (updateCredits h E userId d st)) = oplog st @ [FindOneAndUpdate Users]"
    using assms(2,3) by (simp add: updateCredits_def c User_findOneAndUpdate_def perform_def fault_at_def)
  show "transactions (snd (updateCredits h E userId d st)) = transactions st"
    using assms(2,3) by (simp add: updateCredits_def c User_findOneAndUpdate_def perform_def fault_at_def)
qed

lemma updateCredits_fault:
  assumes "fst (connected E st) = Inr m" "fault_at 0 st = Some e"
  shows "fst (updateCredits h E userId d st) = caught h e"
    and "users (snd (updateCredits h E userId d st)) = users st"
    and "oplog (snd (updateCredits h E userId d st)) = oplog st @ [FindOneAndUpdate Users]"
    and "transactions (snd (updateCredits h E userId d st)) = transactions st"
proof -
  from assms(1) obtain c where c: "connected E st = (Inr m, st\<lparr>cached := c\<rparr>)"
    by (rule connected_ok)
  show "fst (updateCredits h E userId d st) = caught h e"
    using assms(2) by (simp add: updateCredits_def c User_findOneAndUpdate_def perform_def fault_at_def)
  show "users (snd (updateCredits h E userId d st)) = users st"
    using assms(2) by (simp add: updateCredits_def c User_findOneAndUpdate_def perform_def fault_at_def)
  show "oplog (snd (updateCredits h E userId d st)) = oplog st @ [FindOneAndUpdate Users]"
    using assms(2) by (simp add: updateCredits_def c User_findOneAndUpdate_def perform_def fault_at_def)
  show "transactions (snd (updateCredits h E userId d st)) = transactions st"
    using assms(2) by (simp add: updateCredits_def c User_findOneAndUpdate_def perform_def fault_at_def)
qed

lemma show_nat_3: "show_nat 3 = ''3''"
  by code_simp

lemma connected_demo [simp]:
  "connected env_up (demo_db fs) =
     (Inr (Mongoose 0),
      (demo_db fs)\<lparr>cached := \<lparr>conn = Some (Mongoose 0), promise = Some (Promise 0),
                               requests = [the_request ''mongodb://db'']\<rparr>\<rparr>)"
  by (simp add: connected_def connectToDatabase_def connect_begin_def connect_resume_def
      demo_db_def cache0_def env_up_def)

lemma demo_db_fields [simp]:
  "users (demo_db fs) = [alice, bob]" "faults (demo_db fs) = fs" "oplog (demo_db fs) = []"
  "transactions (demo_db fs) = []" "nextId (demo_db fs) = 3"
  by (simp_all add: demo_db_def)

lemma demo_users [simp]:
  "user_id alice = ''1''" "user_id bob = ''2''" "clerkId alice = ''clerk_alice''"
  "clerkId bob = ''clerk_bob''" "creditBalance alice = 10" "creditBalance bob = 0"
  by (simp_all add: alice_def bob_def)

text \<open>
  Claim C1. With the connection acquired and the store answering, \<^verbatim>\<open>updateCredits\<close>
  sends a single find-one-and-update; when a user has the given id, with balance \<open>b\<close>,
  the stored balance becomes \<open>b + d\<close> for every integer \<open>d\<close> and the call returns the
  plain copy of the record as updated; when none has, the error goes to the handler,
  and with the absorbing handler the call returns no value and leaves the users as
  they were.
\<close>

theorem updateCredits_adds_delta:
  assumes "fst (connected E st) = Inr m" and "fault_at 0 st = None"
  shows "(find (\<lambda>u. user_id u = userId) (users st) = Some u \<longrightarrow>
      fst (updateCredits h E userId d st) =
        Inr (Some (user_json (u\<lparr>creditBalance := creditBalance u + d\<rparr>))) \<and>
      find (\<lambda>u. user_id u = userId) (users (snd (updateCredits h E userId d st))) =
        Some (u\<lparr>creditBalance := creditBalance u + d\<rparr>) \<and>
      map_option creditBalance
        (find (\<lambda>u. user_id u = userId) (users (snd (updateCredits h E userId d st)))) =
        Some (creditBalance u + d) \<and>
      oplog (snd (updateCredits h E userId d st)) = oplog st @ [FindOneAndUpdate Users]) \<and>
    (find (\<lambda>u. user_id u = userId) (users st) = None \<longrightarrow>
      fst (updateCredits h E userId d st) = caught h (Error ''User credits update failed'') \<and>
      fst (updateCredits handleError E userId d st) = Inr None \<and>
      users (snd (updateCredits h E userId d st)) = users st \<and>
      oplog (snd (updateCredits h E userId d st)) = oplog st @ [FindOneAndUpdate Users])"
proof (intro conjI impI)
  assume f: "find (\<lambda>u. user_id u = userId) (users st) = Some u"
  note r = updateCredits_found [OF assms f, of h d]
  show "fst (updateCredits h E userId d st) =
      Inr (Some (user_json (u\<lparr>creditBalance := creditBalance u + d\<rparr>)))" by (rule r(1))
  show "find (\<lambda>u. user_id u = userId) (users (snd (updateCredits h E userId d st))) =
      Some (u\<lparr>creditBalance := creditBalance u + d\<rparr>)" by (rule r(2))
  show "map_option creditBalance
        (find (\<lambda>u. user_id u = userId) (users (snd (updateCredits h E userId d st)))) =
        Some (creditBalance u + d)" by (simp add: r(2))
  show "oplog (snd (updateCredits h E userId d st)) = oplog st @ [FindOneAndUpdate Users]"
    by (rule r(3))
next
  assume f: "find (\<lambda>u. user_id u = userId) (users st) = None"
  note r = updateCredits_missing [OF assms f]
  show "fst (updateCredits h E userId d st) = caught h (Error ''User credits update failed'')"
    by (rule r(1))
  show "fst (updateCredits handleError E userId d st) = Inr None"
    by (simp add: r(1) caught_def handleError_def)
  show "users (snd (updateCredits h E userId d st)) = users st" by (rule r(2))
  show "oplog (snd (updateCredits h E userId d st)) = oplog st @ [FindOneAndUpdate Users]"
    by (rule r(3))
qed

theorem updateCredits_adds_delta_witness:
  "fst (connected env_up (demo_db [])) = Inr (Mongoose 0) \<and> fault_at 0 (demo_db []) = None \<and>
   find (\<lambda>u. user_id u = ''1'') (users (demo_db [])) = Some alice \<and>
   map_option creditBalance
     (find (\<lambda>u. user_id u = ''1'') (users (snd (updateCredits handleError env_up ''1'' (- 3) (demo_db []))))) =
     Some 7 \<and>
   find (\<lambda>u. user_id u = ''5'') (users (demo_db [])) = None \<and>
   fst (updateCredits handleError env_up ''5'' (- 3) (demo_db [])) = Inr None"
proof -
  have h: "fst (connected env_up (demo_db [])) = Inr (Mongoose 0)" "fault_at 0 (demo_db []) = None"
    by (simp_all add: fault_at_def script_at_def)
  have f1: "find (\<lambda>u. user_id u = ''1'') (users (demo_db [])) = Some alice"
    and f5: "find (\<lambda>u. user_id u = ''5'') (users (demo_db [])) = None"
    by simp_all
  from updateCredits_adds_delta [OF h, of "''1''" alice handleError "- 3"] f1
  have "map_option creditBalance
     (find (\<lambda>u. user_id u = ''1'') (users (snd (updateCredits handleError env_up ''1'' (- 3) (demo_db []))))) =
     Some (creditBalance alice + (- 3))" by blast
  then have c1: "map_option creditBalance
     (find (\<lambda>u. user_id u = ''1'') (users (snd (updateCredits handleError env_up ''1'' (- 3) (demo_db []))))) =
     Some 7" by simp
  from updateCredits_adds_delta [OF h, of "''5''" alice handleError "- 3"] f5
  have c5: "fst (updateCredits handleError env_up ''5'' (- 3) (demo_db [])) = Inr None" by blast
  from h f1 f5 c1 c5 show ?thesis by blast
qed

lemma caught_handleError [simp]: "caught handleError e = Inr None"
  by (simp add: caught_def handleError_def)

lemma updateCredits_eq:
  assumes "fst (connected E st) = Inr m"
  shows "fst (updateCredits h E userId d st) =
      (case fault_at 0 st of
         Some e \<Rightarrow> caught h e
       | None \<Rightarrow>
           (case find (\<lambda>u. user_id u = userId) (users st) of
              None \<Rightarrow> caught h (Error ''User credits update failed'')
            | Some u \<Rightarrow> Inr (Some (user_json (u\<lparr>creditBalance := creditBalance u + d\<rparr>)))))"
    and "oplog (snd (updateCredits h E userId d st)) = oplog st @ [FindOneAndUpdate Users]"
    and "transactions (snd (updateCredits h E userId d st)) = transactions st"
    and "users (snd (updateCredits h E userId d st)) =
      (case fault_at 0 st of
         Some e \<Rightarrow> users st
       | None \<Rightarrow> update_first (\<lambda>u. user_id u = userId)
                   (\<lambda>u. u\<lparr>creditBalance := creditBalance u + d\<rparr>) (users st))"
proof -
  from assms obtain c where c: "connected E st = (Inr m, st\<lparr>cached := c\<rparr>)"
    by (rule connected_ok)
  show "fst (updateCredits h E userId d st) =
      (case fault_at 0 st of
         Some e \<Rightarrow> caught h e
       | None \<Rightarrow>
           (case find (\<lambda>u. user_id u = userId) (users st) of
              None \<Rightarrow> caught h (Error ''User credits update failed'')
            | Some u \<Rightarrow> Inr (Some (user_json (u\<lparr>creditBalance := creditBalance u + d\<rparr>)))))"
    by (simp add: updateCredits_def c User_findOneAndUpdate_def perform_def fault_at_def split: option.splits)
  show "oplog (snd (updateCredits h E userId d st)) = oplog st @ [FindOneAndUpdate Users]"
    by (simp add: updateCredits_def c User_findOneAndUpdate_def perform_def fault_at_def split: option.splits)
  show "transactions (snd (updateCredits h E userId d st)) = transactions st"
    by (simp add: updateCredits_def c User_findOneAndUpdate_def perform_def fault_at_def split: option.splits)
  show "users (snd (updateCredits h E userId d st)) =
      (case fault_at 0 st of
         Some e \<Rightarrow> users st
       | None \<Rightarrow> update_first (\<lambda>u. user_id u = userId)
                   (\<lambda>u. u\<lparr>creditBalance := creditBalance u + d\<rparr>) (users st))"
    by (simp add: updateCredits_def c User_findOneAndUpdate_def perform_def fault_at_def split: option.splits)
qed

lemma getUserById_eq:
  assumes "fst (connected E st) = Inr m"
  shows "fst (getUserById h E userId st) =
      (case fault_at 0 st of
         Some e \<Rightarrow> caught h e
       | None \<Rightarrow>
           (case find (\<lambda>u. clerkId u = userId) (users st) of
              None \<Rightarrow> caught h (Error ''User not found'')
            | Some u \<Rightarrow> Inr (Some (user_json u))))"
    and "oplog (snd (getUserById h E userId st)) = oplog st @ [FindOne Users]"
    and "users (snd (getUserById h E userId st)) = users st"
proof -
  from assms obtain c where c: "connected E st = (Inr m, st\<lparr>cached := c\<rparr>)"
    by (rule connected_ok)
  show "fst (getUserById h E userId st) =
      (case fault_at 0 st of
         Some e \<Rightarrow> caught h e
       | None \<Rightarrow>
           (case find (\<lambda>u. clerkId u = userId) (users st) of
              None \<Rightarrow> caught h (Error ''User not found'')
            | Some u \<Rightarrow> Inr (Some (user_json u))))"
    by (simp add: getUserById_def c User_findOne_def perform_def fault_at_def split: option.splits)
  show "oplog (snd (getUserById h E userId st)) = oplog st @ [FindOne Users]"
    by (simp add: getUserById_def c User_findOne_def perform_def fault_at_def split: option.splits)
  show "users (snd (getUserById h E userId st)) = users st"
    by (simp add: getUserById_def c User_findOne_def perform_def fault_at_def split: option.splits)
qed

lemma createUser_eq:
  assumes "fst (connected E st) = Inr m"
  shows "fst (createUser h E p st) =
      (case fault_at 0 st of
         Some e \<Rightarrow> caught h e
       | None \<Rightarrow> Inr (Some (user_json \<lparr>clerkId = clerkId p, profile = profile p,
                    user_id = show_nat (nextId st), creditBalance = initialCredits E\<rparr>)))"
    and "oplog (snd (createUser h E p st)) = oplog st @ [Insert Users]"
    and "users (snd (createUser h E p st)) =
      (case fault_at 0 st of
         Some e \<Rightarrow> users st
       | None \<Rightarrow> users st @ [\<lparr>clerkId = clerkId p, profile = profile p,
                    user_id = show_nat (nextId st), creditBalance = initialCredits E\<rparr>])"
proof -
  from assms obtain c where c: "connected E st = (Inr m, st\<lparr>cached := c\<rparr>)"
    by (rule connected_ok)
  show "fst (createUser h E p st) =
      (case fault_at 0 st of
         Some e \<Rightarrow> caught h e
       | None \<Rightarrow> Inr (Some (user_json \<lparr>clerkId = clerkId p, profile = profile p,
                    user_id = show_nat (nextId st), creditBalance = initialCredits E\<rparr>)))"
    by (simp add: createUser_def c User_create_def Let_def perform_def fault_at_def split: option.splits)
  show "oplog (snd (createUser h E p st)) = oplog st @ [Insert Users]"
    by (simp add: createUser_def c User_create_def Let_def perform_def fault_at_def split: option.splits)
  show "users (snd (createUser h E p st)) =
      (case fault_at 0 st of
         Some e \<Rightarrow> users st
       | None \<Rightarrow> users st @ [\<lparr>clerkId = clerkId p, profile = profile p,
                    user_id = show_nat (nextId st), creditBalance = initialCredits E\<rparr>])"
    by (simp add: createUser_def c User_create_def Let_def perform_def fault_at_def split: option.splits)
qed

lemma updateUser_eq:
  assumes "fst (connected E st) = Inr m"
  shows "fst (updateUser h E cid upd st) =
      (case fault_at 0 st of
         Some e \<Rightarrow> caught h e
       | None \<Rightarrow>
           (case find (\<lambda>u. clerkId u = cid) (users st) of
              None \<Rightarrow> caught h (Error ''User update failed'')
            | Some u \<Rightarrow> Inr (Some (user_json (set_fields upd u)))))"
    and "oplog (snd (updateUser h E cid upd st)) = oplog st @ [FindOneAndUpdate Users]"
proof -
  from assms obtain c where c: "connected E st = (Inr m, st\<lparr>cached := c\<rparr>)"
    by (rule connected_ok)
  show "fst (updateUser h E cid upd st) =
      (case fault_at 0 st of
         Some e \<Rightarrow> caught h e
       | None \<Rightarrow>
           (case find (\<lambda>u. clerkId u = cid) (users st) of
              None \<Rightarrow> caught h (Error ''User update failed'')
            | Some u \<Rightarrow> Inr (Some (user_json (set_fields upd u)))))"
    by (simp add: updateUser_def c User_findOneAndUpdate_def perform_def fault_at_def split: option.splits)
  show "oplog (snd (updateUser h E cid upd st)) = oplog st @ [FindOneAndUpdate Users]"
    by (simp add: updateUser_def c User_findOneAndUpdate_def perform_def fault_at_def split: option.splits)
qed

lemma find_Some_mem: "find q xs = Some x \<Longrightarrow> x \<in> set xs \<and> q x"
  by (induction xs) (auto split: if_splits)

lemma find_by_own_id:
  assumes "find q xs = Some (u :: user)"
  shows "find (\<lambda>v. user_id v = user_id u) xs \<noteq> None"
  using find_Some_mem [OF assms] by (auto simp: find_None_iff)

lemma deleteUser_eq:
  assumes "fst (connected E st) = Inr m"
  shows "fst (deleteUser h E cid st) =
      (case fault_at 0 st of
         Some e \<Rightarrow> caught h e
       | None \<Rightarrow>
           (case find (\<lambda>u. clerkId u = cid) (users st) of
              None \<Rightarrow> caught h (Error ''User not found'')
            | Some u \<Rightarrow>
                (case fault_at 1 st of
                   Some e \<Rightarrow> caught h e
                 | None \<Rightarrow>
                     (case find (\<lambda>v. user_id v = user_id u) (users st) of
                        None \<Rightarrow> Inr (Some JNull)
                      | Some d \<Rightarrow> Inr (Some (user_json d))))))"
    and "oplog (snd (deleteUser h E cid st)) =
      oplog st @
      (case fault_at 0 st of
         Some e \<Rightarrow> [FindOne Users]
       | None \<Rightarrow>
           (case find (\<lambda>u. clerkId u = cid) (users st) of
              None \<Rightarrow> [FindOne Users]
            | Some u \<Rightarrow> [FindOne Users, FindByIdAndDelete Users]))"
proof -
  from assms obtain c where c: "connected E st = (Inr m, st\<lparr>cached := c\<rparr>)"
    by (rule connected_ok)
  show "fst (deleteUser h E cid st) =
      (case fault_at 0 st of
         Some e \<Rightarrow> caught h e
       | None \<Rightarrow>
           (case find (\<lambda>u. clerkId u = cid) (users st) of
              None \<Rightarrow> caught h (Error ''User not found'')
            | Some u \<Rightarrow>
                (case fault_at 1 st of
                   Some e \<Rightarrow> caught h e
                 | None \<Rightarrow>
                     (case find (\<lambda>v. user_id v = user_id u) (users st) of
                        None \<Rightarrow> Inr (Some JNull)
                      | Some d \<Rightarrow> Inr (Some (user_json d))))))"
    by (simp add: deleteUser_def c User_findOne_def User_findByIdAndDelete_def perform_def fault_at_def
        split: option.splits)
  show "oplog (snd (deleteUser h E cid st)) =
      oplog st @
      (case fault_at 0 st of
         Some e \<Rightarrow> [FindOne Users]
       | None \<Rightarrow>
           (case find (\<lambda>u. clerkId u = cid) (users st) of
              None \<Rightarrow> [FindOne Users]
            | Some u \<Rightarrow> [FindOne Users, FindByIdAndDelete Users]))"
    by (simp add: deleteUser_def c User_findOne_def User_findByIdAndDelete_def perform_def fault_at_def
        split: option.splits)
qed

lemma createTransaction_eq:
  assumes "fst (connected E st) = Inr m"
  shows "fst (createTransaction h E tx st) =
      (case fault_at 0 st of
         Some e \<Rightarrow> caught h e
       | None \<Rightarrow>
           (case (case fault_at 1 st of
                    Some e \<Rightarrow> caught h e
                  | None \<Rightarrow>
                      (case find (\<lambda>u. user_id u = buyerId tx) (users st) of
                         None \<Rightarrow> caught h (Error ''User credits update failed'')
                       | Some u \<Rightarrow>
                           Inr (Some (user_json (u\<lparr>creditBalance := creditBalance u + credits tx\<rparr>))))) of
              Inl e \<Rightarrow> caught h e
            | Inr _ \<Rightarrow>
                Inr (Some (transaction_json
                  \<lparr>plan = plan tx, credits = credits tx, amount = amount tx, buyerId = buyerId tx,
                   transaction_id = show_nat (nextId st), buyer = buyerId tx\<rparr>))))"
    and "oplog (snd (createTransaction h E tx st)) =
      oplog st @
      (case fault_at 0 st of
         Some e \<Rightarrow> [Insert Transactions]
       | None \<Rightarrow> [Insert Transactions, FindOneAndUpdate Users])"
    and "transactions (snd (createTransaction h E tx st)) =
      (case fault_at 0 st of
         Some e \<Rightarrow> transactions st
       | None \<Rightarrow> transactions st @
           [\<lparr>plan = plan tx, credits = credits tx, amount = amount tx, buyerId = buyerId tx,
             transaction_id = show_nat (nextId st), buyer = buyerId tx\<rparr>])"
    and "users (snd (createTransaction h E tx st)) =
      (case fault_at 0 st of
         Some e \<Rightarrow> users st
       | None \<Rightarrow>
           (case fault_at 1 st of
              Some e \<Rightarrow> users st
            | None \<Rightarrow> update_first (\<lambda>u. user_id u = buyerId tx)
                        (\<lambda>u. u\<lparr>creditBalance := creditBalance u + credits tx\<rparr>) (users st)))"
proof -
  from assms obtain c where c: "connected E st = (Inr m, st\<lparr>cached := c\<rparr>)" "conn c = Some m"
    by (rule connected_ok)
  define t where "t = \<lparr>plan = plan tx, credits = credits tx, amount = amount tx,
     buyerId = buyerId tx, transaction_id = show_nat (nextId st), buyer = buyerId tx\<rparr>"
  define st2 where "st2 = st\<lparr>cached := c, oplog := oplog st @ [Insert Transactions],
     faults := tl (faults st), transactions := transactions st @ [t], nextId := Suc (nextId st)\<rparr>"
  have ins: "fault_at 0 st = None \<Longrightarrow>
      Transaction_create tx (buyerId tx) (st\<lparr>cached := c\<rparr>) = (Inr t, st2)"
    by (simp add: Transaction_create_def perform_def Let_def t_def st2_def fault_at_def)
  have insf: "\<And>e. fault_at 0 st = Some e \<Longrightarrow>
      Transaction_create tx (buyerId tx) (st\<lparr>cached := c\<rparr>) =
        (Inl e, st\<lparr>cached := c, oplog := oplog st @ [Insert Transactions], faults := tl (faults st)\<rparr>)"
    by (simp add: Transaction_create_def perform_def fault_at_def)
  have "conn (cached st2) = Some m"
    by (simp add: st2_def c(2))
  then have c2: "fst (connected E st2) = Inr m"
    by (simp add: connected_again)
  have f2: "fault_at 0 st2 = fault_at 1 st" "users st2 = users st" "oplog st2 = oplog st @ [Insert Transactions]"
    "transactions st2 = transactions st @ [t]"
    by (simp_all add: st2_def fault_at_def)
  note led = updateCredits_eq [OF c2, of h "buyerId tx" "credits tx", unfolded f2]
  obtain r st3 where u: "updateCredits h E (buyerId tx) (credits tx) st2 = (r, st3)"
    by (cases "updateCredits h E (buyerId tx) (credits tx) st2")
  from led u have r: "r = (case fault_at 1 st of
                    Some e \<Rightarrow> caught h e
                  | None \<Rightarrow>
                      (case find (\<lambda>u. user_id u = buyerId tx) (users st) of
                         None \<Rightarrow> caught h (Error ''User credits update failed'')
                       | Some u \<Rightarrow>
                           Inr (Some (user_json (u\<lparr>creditBalance := creditBalance u + credits tx\<rparr>)))))"
    and o3: "oplog st3 = oplog st @ [Insert Transactions, FindOneAndUpdate Users]"
    and t3: "transactions st3 = transactions st @ [t]"
    and u3: "users st3 = (case fault_at 1 st of
         Some e \<Rightarrow> users st
       | None \<Rightarrow> update_first (\<lambda>u. user_id u = buyerId tx)
                   (\<lambda>u. u\<lparr>creditBalance := creditBalance u + credits tx\<rparr>) (users st))"
    by simp_all
  have ok: "fault_at 0 st = None \<Longrightarrow> createTransaction h E tx st =
      ((case r of Inl e \<Rightarrow> caught h e | Inr _ \<Rightarrow> Inr (Some (transaction_json t))), st3)"
    by (simp add: createTransaction_def c(1) ins u split: sum.splits)
  have bad: "\<And>e. fault_at 0 st = Some e \<Longrightarrow> createTransaction h E tx st =
      (caught h e, st\<lparr>cached := c, oplog := oplog st @ [Insert Transactions], faults := tl (faults st)\<rparr>)"
    by (simp add: createTransaction_def c(1) insf)
  show "fst (createTransaction h E tx st) =
      (case fault_at 0 st of
         Some e \<Rightarrow> caught h e
       | None \<Rightarrow>
           (case (case fault_at 1 st of
                    Some e \<Rightarrow> caught h e
                  | None \<Rightarrow>
                      (case find (\<lambda>u. user_id u = buyerId tx) (users st) of
                         None \<Rightarrow> caught h (Error ''User credits update failed'')
                       | Some u \<Rightarrow>
                           Inr (Some (user_json (u\<lparr>creditBalance := creditBalance u + credits tx\<rparr>))))) of
              Inl e \<Rightarrow> caught h e
            | Inr _ \<Rightarrow>
                Inr (Some (transaction_json
                  \<lparr>plan = plan tx, credits = credits tx, amount = amount tx, buyerId = buyerId tx,
                   transaction_id = show_nat (nextId st), buyer = buyerId tx\<rparr>))))"
  proof (cases "fault_at 0 st")
    case None
    from ok [OF None]
    have "fst (createTransaction h E tx st) =
        (case r of Inl e \<Rightarrow> caught h e | Inr _ \<Rightarrow> Inr (Some (transaction_json t)))"
      by simp
    then show ?thesis unfolding r t_def None by simp
  next
    case (Some e)
    then show ?thesis by (simp add: bad [OF Some])
  qed
  show "oplog (snd (createTransaction h E tx st)) =
      oplog st @
      (case fault_at 0 st of
         Some e \<Rightarrow> [Insert Transactions]
       | None \<Rightarrow> [Insert Transactions, FindOneAndUpdate Users])"
  proof (cases "fault_at 0 st")
    case None
    then show ?thesis by (simp add: ok [OF None] o3)
  next
    case (Some e)
    then show ?thesis by (simp add: bad [OF Some])
  qed
  show "transactions (snd (createTransaction h E tx st)) =
      (case fault_at 0 st of
         Some e \<Rightarrow> transactions st
       | None \<Rightarrow> transactions st @
           [\<lparr>plan = plan tx, credits = credits tx, amount = amount tx, buyerId = buyerId tx,
             transaction_id = show_nat (nextId st), buyer = buyerId tx\<rparr>])"
  proof (cases "fault_at 0 st")
    case None
    then show ?thesis by (simp add: ok [OF None] t3 t_def)
  next
    case (Some e)
    then show ?thesis by (simp add: bad [OF Some])
  qed
  show "users (snd (createTransaction h E tx st)) =
      (case fault_at 0 st of
         Some e \<Rightarrow> users st
       | None \<Rightarrow>
           (case fault_at 1 st of
              Some e \<Rightarrow> users st
            | None \<Rightarrow> update_first (\<lambda>u. user_id u = buyerId tx)
                        (\<lambda>u. u\<lparr>creditBalance := creditBalance u + credits tx\<rparr>) (users st)))"
  proof (cases "fault_at 0 st")
    case None
    then show ?thesis by (simp add: ok [OF None] u3)
  next
    case (Some e)
    then show ?thesis by (simp add: bad [OF Some])
  qed
qed

lemma disconnected_eq:
  assumes "fst (connected E st) = Inl e"
  shows "fst (createUser h E p st) = caught h e \<and> oplog (snd (createUser h E p st)) = oplog st"
    and "fst (getUserById h E cid st) = caught h e \<and> oplog (snd (getUserById h E cid st)) = oplog st"
    and "fst (updateUser h E cid upd st) = caught h e \<and>
         oplog (snd (updateUser h E cid upd st)) = oplog st"
    and "fst (deleteUser h E cid st) = caught h e \<and> oplog (snd (deleteUser h E cid st)) = oplog st"
    and "fst (updateCredits h E userId d st) = caught h e \<and>
         oplog (snd (updateCredits h E userId d st)) = oplog st"
    and "fst (createTransaction h E tx st) = caught h e \<and>
         oplog (snd (createTransaction h E tx st)) = oplog st"
proof -
  from assms obtain c where c: "connected E st = (Inl e, st\<lparr>cached := c\<rparr>)"
    by (rule connected_fail)
  show "fst (createUser h E p st) = caught h e \<and> oplog (snd (createUser h E p st)) = oplog st"
    by (simp add: createUser_def c)
  show "fst (getUserById h E cid st) = caught h e \<and> oplog (snd (getUserById h E cid st)) = oplog st"
    by (simp add: getUserById_def c)
  show "fst (updateUser h E cid upd st) = caught h e \<and>
         oplog (snd (updateUser h E cid upd st)) = oplog st"
    by (simp add: updateUser_def c)
  show "fst (deleteUser h E cid st) = caught h e \<and> oplog (snd (deleteUser h E cid st)) = oplog st"
    by (simp add: deleteUser_def c)
  show "fst (updateCredits h E userId d st) = caught h e \<and>
         oplog (snd (updateCredits h E userId d st)) = oplog st"
    by (simp add: updateCredits_def c)
  show "fst (createTransaction h E tx st) = caught h e \<and>
         oplog (snd (createTransaction h E tx st)) = oplog st"
    by (simp add: createTransaction_def c)
qed

text \<open>
  Claim C3. \<^verbatim>\<open>createTransaction\<close> inserts the Transaction document and only then runs
  the credit-ledger operation. With the connection acquired and the insert answered,
  if the ledger step fails (the store rejects its find-one-and-update, or no user has
  the buyer's id), then, whatever the error handler does, the new Transaction is in
  the store, every user record is as it was, and the only document operations sent
  are the insert and the one failed update: nothing compensates or retries. With the
  absorbing handler the caller even receives the transaction as the result.
\<close>

theorem createTransaction_not_atomic:
  assumes "fst (connected E st) = Inr m" and "fault_at 0 st = None"
    and "fault_at 1 st \<noteq> None \<or> find (\<lambda>u. user_id u = buyerId tx) (users st) = None"
  shows "transactions (snd (createTransaction h E tx st)) =
      transactions st @
        [\<lparr>plan = plan tx, credits = credits tx, amount = amount tx, buyerId = buyerId tx,
          transaction_id = show_nat (nextId st), buyer = buyerId tx\<rparr>] \<and>
    users (snd (createTransaction h E tx st)) = users st \<and>
    oplog (snd (createTransaction h E tx st)) =
      oplog st @ [Insert Transactions, FindOneAndUpdate Users] \<and>
    fst (createTransaction handleError E tx st) =
      Inr (Some (transaction_json
        \<lparr>plan = plan tx, credits = credits tx, amount = amount tx, buyerId = buyerId tx,
         transaction_id = show_nat (nextId st), buyer = buyerId tx\<rparr>))"
proof -
  note eq = createTransaction_eq [OF assms(1)]
  have t: "transactions (snd (createTransaction h E tx st)) =
      transactions st @
        [\<lparr>plan = plan tx, credits = credits tx, amount = amount tx, buyerId = buyerId tx,
          transaction_id = show_nat (nextId st), buyer = buyerId tx\<rparr>]"
    by (simp add: eq(3) assms(2))
  have o: "oplog (snd (createTransaction h E tx st)) =
      oplog st @ [Insert Transactions, FindOneAndUpdate Users]"
    by (simp add: eq(2) assms(2))
  have u: "users (snd (createTransaction h E tx st)) = users st"
    using assms(3) by (auto simp: eq(4) assms(2) update_first_none split: option.splits)
  have r: "fst (createTransaction handleError E tx st) =
      Inr (Some (transaction_json
        \<lparr>plan = plan tx, credits = credits tx, amount = amount tx, buyerId = buyerId tx,
         transaction_id = show_nat (nextId st), buyer = buyerId tx\<rparr>))"
    using assms(3) by (auto simp: eq(1) assms(2) split: option.splits)
  from t u o r show ?thesis by simp
qed

theorem createTransaction_not_atomic_witness:
  "fst (connected env_up (demo_db [None, Some (Error ''write failed'')])) = Inr (Mongoose 0) \<and>
   fault_at 0 (demo_db [None, Some (Error ''write failed'')]) = None \<and>
   fault_at 1 (demo_db [None, Some (Error ''write failed'')]) \<noteq> None \<and>
   find (\<lambda>u. user_id u = buyerId (pro_plan ''7'')) (users (demo_db [])) = None \<and>
   fault_at 0 (demo_db []) = None \<and>
   users (snd (createTransaction handleError env_up (pro_plan ''1'')
     (demo_db [None, Some (Error ''write failed'')]))) = [alice, bob] \<and>
   length (transactions (snd (createTransaction handleError env_up (pro_plan ''1'')
     (demo_db [None, Some (Error ''write failed'')])))) = 1 \<and>
   users (snd (createTransaction handleError env_up (pro_plan ''7'') (demo_db []))) = [alice, bob] \<and>
   length (transactions (snd (createTransaction handleError env_up (pro_plan ''7'') (demo_db [])))) = 1"
proof -
  let ?st = "demo_db [None, Some (Error ''write failed'')]"
  have h1: "fst (connected env_up ?st) = Inr (Mongoose 0)" "fault_at 0 ?st = None"
    and h1': "fault_at 1 ?st \<noteq> None"
    by (simp_all add: fault_at_def script_at_def)
  have h2: "fst (connected env_up (demo_db [])) = Inr (Mongoose 0)" "fault_at 0 (demo_db []) = None"
    and h2': "find (\<lambda>u. user_id u = buyerId (pro_plan ''7'')) (users (demo_db [])) = None"
    by (simp_all add: fault_at_def script_at_def pro_plan_def)
  from createTransaction_not_atomic [OF h1 disjI1 [OF h1'], where tx = "pro_plan ''1''" and h = handleError]
  have c1: "users (snd (createTransaction handleError env_up (pro_plan ''1'') ?st)) = [alice, bob]"
    "length (transactions (snd (createTransaction handleError env_up (pro_plan ''1'') ?st))) = 1"
    by simp_all
  from createTransaction_not_atomic [OF h2 disjI2 [OF h2'], where h = handleError]
  have c2: "users (snd (createTransaction handleError env_up (pro_plan ''7'') (demo_db []))) = [alice, bob]"
    "length (transactions (snd (createTransaction handleError env_up (pro_plan ''7'') (demo_db [])))) = 1"
    by simp_all
  from h1 h1' h2 h2' c1 c2 show ?thesis by blast
qed

text \<open>
  Claim C4. With the handler the spec describes, \<^verbatim>\<open>getUserById\<close> never rejects. When no
  user has the given subject id, the action raises its own \<open>User not found\<close> error,
  hands it to the handler, and resolves with no value; it resolves with no value in
  the same way when the store rejects the query and when the connection cannot be
  acquired, so the caller cannot tell these apart.
\<close>

theorem getUserById_not_found_absorbed:
  "(\<forall>e. fst (getUserById handleError E userId st) \<noteq> Inl e) \<and>
   (fst (connected E st) = Inr m \<and> fault_at 0 st = None \<and>
    find (\<lambda>u. clerkId u = userId) (users st) = None \<longrightarrow>
      fst (getUserById h E userId st) = caught h (Error ''User not found'') \<and>
      fst (getUserById handleError E userId st) = Inr None) \<and>
   (fst (connected E st) = Inr m \<and> fault_at 0 st = Some e1 \<longrightarrow>
      fst (getUserById handleError E userId st) = Inr None) \<and>
   (fst (connected E st) = Inl e2 \<longrightarrow>
      fst (getUserById handleError E userId st) = Inr None)"
proof (intro conjI impI allI)
  fix e
  show "fst (getUserById handleError E userId st) \<noteq> Inl e"
  proof (cases "fst (connected E st)")
    case (Inl e')
    from disconnected_eq(2) [OF Inl] show ?thesis by simp
  next
    case (Inr m')
    from getUserById_eq(1) [OF Inr] show ?thesis by (simp split: option.splits)
  qed
next
  assume a: "fst (connected E st) = Inr m \<and> fault_at 0 st = None \<and>
    find (\<lambda>u. clerkId u = userId) (users st) = None"
  then have c: "fst (connected E st) = Inr m" by simp
  from a show "fst (getUserById h E userId st) = caught h (Error ''User not found'')"
    by (simp add: getUserById_eq(1) [OF c])
  from a show "fst (getUserById handleError E userId st) = Inr None"
    by (simp add: getUserById_eq(1) [OF c])
next
  assume a: "fst (connected E st) = Inr m \<and> fault_at 0 st = Some e1"
  then have c: "fst (connected E st) = Inr m" by simp
  from a show "fst (getUserById handleError E userId st) = Inr None"
    by (simp add: getUserById_eq(1) [OF c])
next
  assume a: "fst (connected E st) = Inl e2"
  from disconnected_eq(2) [OF a] show "fst (getUserById handleError E userId st) = Inr None"
    by simp
qed

theorem getUserById_not_found_absorbed_witness:
  "fst (connected env_up (demo_db [])) = Inr (Mongoose 0) \<and> fault_at 0 (demo_db []) = None \<and>
   find (\<lambda>u. clerkId u = ''clerk_carol'') (users (demo_db [])) = None \<and>
   fst (getUserById handleError env_up ''clerk_carol'' (demo_db [])) = Inr None \<and>
   fst (connected env_up (demo_db [Some (Error ''timeout'')])) = Inr (Mongoose 0) \<and>
   fault_at 0 (demo_db [Some (Error ''timeout'')]) = Some (Error ''timeout'') \<and>
   fst (getUserById handleError env_up ''clerk_alice'' (demo_db [Some (Error ''timeout'')])) = Inr None \<and>
   fst (connected env_down (demo_db [])) = Inl (Error ''ECONNREFUSED'') \<and>
   fst (getUserById handleError env_down ''clerk_alice'' (demo_db [])) = Inr None"
proof -
  have h1: "fst (connected env_up (demo_db [])) = Inr (Mongoose 0) \<and> fault_at 0 (demo_db []) = None \<and>
      find (\<lambda>u. clerkId u = ''clerk_carol'') (users (demo_db [])) = None"
    by (simp add: fault_at_def script_at_def)
  have h2: "fst (connected env_up (demo_db [Some (Error ''timeout'')])) = Inr (Mongoose 0) \<and>
      fault_at 0 (demo_db [Some (Error ''timeout'')]) = Some (Error ''timeout'')"
    by (simp add: fault_at_def script_at_def)
  have h3: "fst (connected env_down (demo_db [])) = Inl (Error ''ECONNREFUSED'')"
    by (simp add: connected_def connectToDatabase_def connect_begin_def connect_resume_def
        demo_db_def cache0_def env_down_def env_up_def)
  from h1 getUserById_not_found_absorbed [of env_up "''clerk_carol''" "demo_db []" "Mongoose 0"]
  have c1: "fst (getUserById handleError env_up ''clerk_carol'' (demo_db [])) = Inr None"
    by blast
  from h2 getUserById_not_found_absorbed
    [of env_up "''clerk_alice''" "demo_db [Some (Error ''timeout'')]" "Mongoose 0" _ "Error ''timeout''"]
  have c2: "fst (getUserById handleError env_up ''clerk_alice'' (demo_db [Some (Error ''timeout'')])) = Inr None"
    by blast
  from h3 getUserById_not_found_absorbed
    [of env_down "''clerk_alice''" "demo_db []" _ _ _ "Error ''ECONNREFUSED''"]
  have c3: "fst (getUserById handleError env_down ''clerk_alice'' (demo_db [])) = Inr None"
    by blast
  from h1 h2 h3 c1 c2 c3 show ?thesis by blast
qed

text \<open>
  Claim C8, as stated, fails: deleting an existing user sends two document operations,
  a find-one and then a find-by-id-and-delete, and succeeds.
\<close>

theorem deleteUser_two_operations_counterexample:
  "fst (deleteUser handleError env_up ''clerk_alice'' (demo_db [])) = Inr (Some (user_json alice)) \<and>
   oplog (snd (deleteUser handleError env_up ''clerk_alice'' (demo_db []))) =
     [FindOne Users, FindByIdAndDelete Users] \<and>
   length (oplog (snd (deleteUser handleError env_up ''clerk_alice'' (demo_db [])))) \<noteq> 1"
  by (simp add: deleteUser_def User_findOne_def User_findByIdAndDelete_def perform_def
      fault_at_def script_at_def)

text \<open>
  Claim C8, amended. Once the connection is acquired, \<^verbatim>\<open>createUser\<close>, \<^verbatim>\<open>getUserById\<close>,
  \<^verbatim>\<open>updateUser\<close> and \<^verbatim>\<open>updateCredits\<close> send exactly one document operation (an insert, a
  find-one, a find-one-and-update); \<^verbatim>\<open>deleteUser\<close> sends a find-one and, when that
  finds the user, a find-by-id-and-delete; \<^verbatim>\<open>createTransaction\<close> sends an insert and,
  when that is answered, the ledger's find-one-and-update. On success each returns the
  plain copy of the document; an error of the connection, of the store or of the
  action's own check goes to the shared handler, and with the absorbing handler the
  action returns no value, except that \<^verbatim>\<open>createTransaction\<close> still returns the
  transaction when only its ledger step fails. When the connection cannot be
  acquired no document operation is sent.
\<close>

theorem persistence_operations:
  "(fst (connected E st) = Inr m \<longrightarrow>
      fst (createUser h E p st) =
        (case fault_at 0 st of
           Some e \<Rightarrow> caught h e
         | None \<Rightarrow> Inr (Some (user_json \<lparr>clerkId = clerkId p, profile = profile p,
                      user_id = show_nat (nextId st), creditBalance = initialCredits E\<rparr>))) \<and>
      oplog (snd (createUser h E p st)) = oplog st @ [Insert Users] \<and>
      fst (getUserById h E cid st) =
        (case fault_at 0 st of
           Some e \<Rightarrow> caught h e
         | None \<Rightarrow>
             (case find (\<lambda>u. clerkId u = cid) (users st) of
                None \<Rightarrow> caught h (Error ''User not found'')
              | Some u \<Rightarrow> Inr (Some (user_json u)))) \<and>
      oplog (snd (getUserById h E cid st)) = oplog st @ [FindOne Users] \<and>
      fst (updateUser h E cid upd st) =
        (case fault_at 0 st of
           Some e \<Rightarrow> caught h e
         | None \<Rightarrow>
             (case find (\<lambda>u. clerkId u = cid) (users st) of
                None \<Rightarrow> caught h (Error ''User update failed'')
              | Some u \<Rightarrow> Inr (Some (user_json (set_fields upd u))))) \<and>
      oplog (snd (updateUser h E cid upd st)) = oplog st @ [FindOneAndUpdate Users] \<and>
      fst (updateCredits h E userId d st) =
        (case fault_at 0 st of
           Some e \<Rightarrow> caught h e
         | None \<Rightarrow>
             (case find (\<lambda>u. user_id u = userId) (users st) of
                None \<Rightarrow> caught h (Error ''User credits update failed'')
              | Some u \<Rightarrow> Inr (Some (user_json (u\<lparr>creditBalance := creditBalance u + d\<rparr>))))) \<and>
      oplog (snd (updateCredits h E userId d st)) = oplog st @ [FindOneAndUpdate Users] \<and>
      fst (deleteUser h E cid st) =
        (case fault_at 0 st of
           Some e \<Rightarrow> caught h e
         | None \<Rightarrow>
             (case find (\<lambda>u. clerkId u = cid) (users st) of
                None \<Rightarrow> caught h (Error ''User not found'')
              | Some u \<Rightarrow>
                  (case fault_at 1 st of
                     Some e \<Rightarrow> caught h e
                   | None \<Rightarrow>
                       (case find (\<lambda>v. user_id v = user_id u) (users st) of
                          None \<Rightarrow> Inr (Some JNull)
                        | Some d \<Rightarrow> Inr (Some (user_json d)))))) \<and>
      oplog (snd (deleteUser h E cid st)) =
        oplog st @
        (case fault_at 0 st of
           Some e \<Rightarrow> [FindOne Users]
         | None \<Rightarrow>
             (case find (\<lambda>u. clerkId u = cid) (users st) of
                None \<Rightarrow> [FindOne Users]
              | Some u \<Rightarrow> [FindOne Users, FindByIdAndDelete Users])) \<and>
      fst (createTransaction h E tx st) =
        (case fault_at 0 st of
           Some e \<Rightarrow> caught h e
         | None \<Rightarrow>
             (case (case fault_at 1 st of
                      Some e \<Rightarrow> caught h e
                    | None \<Rightarrow>
                        (case find (\<lambda>u. user_id u = buyerId tx) (users st) of
                           None \<Rightarrow> caught h (Error ''User credits update failed'')
                         | Some u \<Rightarrow>
                             Inr (Some (user_json
                               (u\<lparr>creditBalance := creditBalance u + credits tx\<rparr>))))) of
                Inl e \<Rightarrow> caught h e
              | Inr _ \<Rightarrow>
                  Inr (Some (transaction_json
                    \<lparr>plan = plan tx, credits = credits tx, amount = amount tx,
                     buyerId = buyerId tx, transaction_id = show_nat (nextId st), buyer = buyerId tx\<rparr>)))) \<and>
      oplog (snd (createTransaction h E tx st)) =
        oplog st @
        (case fault_at 0 st of
           Some e \<Rightarrow> [Insert Transactions]
         | None \<Rightarrow> [Insert Transactions, FindOneAndUpdate Users])) \<and>
   (fst (connected E st) = Inl e0 \<longrightarrow>
      (fst (createUser h E p st) = caught h e0 \<and> oplog (snd (createUser h E p st)) = oplog st) \<and>
      (fst (getUserById h E cid st) = caught h e0 \<and>
       oplog (snd (getUserById h E cid st)) = oplog st) \<and>
      (fst (updateUser h E cid upd st) = caught h e0 \<and>
       oplog (snd (updateUser h E cid upd st)) = oplog st) \<and>
      (fst (deleteUser h E cid st) = caught h e0 \<and>
       oplog (snd (deleteUser h E cid st)) = oplog st) \<and>
      (fst (updateCredits h E userId d st) = caught h e0 \<and>
       oplog (snd (updateCredits h E userId d st)) = oplog st) \<and>
      (fst (createTransaction h E tx st) = caught h e0 \<and>
       oplog (snd (createTransaction h E tx st)) = oplog st)) \<and>
   caught handleError e1 = Inr None"
proof (intro conjI impI)
  assume c: "fst (connected E st) = Inr m"
  show "fst (createUser h E p st) =
        (case fault_at 0 st of
           Some e \<Rightarrow> caught h e
         | None \<Rightarrow> Inr (Some (user_json \<lparr>clerkId = clerkId p, profile = profile p,
                      user_id = show_nat (nextId st), creditBalance = initialCredits E\<rparr>)))"
    by (rule createUser_eq(1) [OF c])
  show "oplog (snd (createUser h E p st)) = oplog st @ [Insert Users]"
    by (rule createUser_eq(2) [OF c])
  show "fst (getUserById h E cid st) =
        (case fault_at 0 st of
           Some e \<Rightarrow> caught h e
         | None \<Rightarrow>
             (case find (\<lambda>u. clerkId u = cid) (users st) of
                None \<Rightarrow> caught h (Error ''User not found'')
              | Some u \<Rightarrow> Inr (Some (user_json u))))"
    by (rule getUserById_eq(1) [OF c])
  show "oplog (snd (getUserById h E cid st)) = oplog st @ [FindOne Users]"
    by (rule getUserById_eq(2) [OF c])
  show "fst (updateUser h E cid upd st) =
        (case fault_at 0 st of
           Some e \<Rightarrow> caught h e
         | None \<Rightarrow>
             (case find (\<lambda>u. clerkId u = cid) (users st) of
                None \<Rightarrow> caught h (Error ''User update failed'')
              | Some u \<Rightarrow> Inr (Some (user_json (set_fields upd u)))))"
    by (rule updateUser_eq(1) [OF c])
  show "oplog (snd (updateUser h E cid upd st)) = oplog st @ [FindOneAndUpdate Users]"
    by (rule updateUser_eq(2) [OF c])
  show "fst (updateCredits h E userId d st) =
        (case fault_at 0 st of
           Some e \<Rightarrow> caught h e
         | None \<Rightarrow>
             (case find (\<lambda>u. user_id u = userId) (users st) of
                None \<Rightarrow> caught h (Error ''User credits update failed'')
              | Some u \<Rightarrow> Inr (Some (user_json (u\<lparr>creditBalance := creditBalance u + d\<rparr>)))))"
    by (rule updateCredits_eq(1) [OF c])
  show "oplog (snd (updateCredits h E userId d st)) = oplog st @ [FindOneAndUpdate Users]"
    by (rule updateCredits_eq(2) [OF c])
  show "fst (deleteUser h E cid st) =
        (case fault_at 0 st of
           Some e \<Rightarrow> caught h e
         | None \<Rightarrow>
             (case find (\<lambda>u. clerkId u = cid) (users st) of
                None \<Rightarrow> caught h (Error ''User not found'')
              | Some u \<Rightarrow>
                  (case fault_at 1 st of
                     Some e \<Rightarrow> caught h e
                   | None \<Rightarrow>
                       (case find (\<lambda>v. user_id v = user_id u) (users st) of
                          None \<Rightarrow> Inr (Some JNull)
                        | Some d \<Rightarrow> Inr (Some (user_json d))))))"
    by (rule deleteUser_eq(1) [OF c])
  show "oplog (snd (deleteUser h E cid st)) =
        oplog st @
        (case fault_at 0 st of
           Some e \<Rightarrow> [FindOne Users]
         | None \<Rightarrow>
             (case find (\<lambda>u. clerkId u = cid) (users st) of
                None \<Rightarrow> [FindOne Users]
              | Some u \<Rightarrow> [FindOne Users, FindByIdAndDelete Users]))"
    by (rule deleteUser_eq(2) [OF c])
  show "fst (createTransaction h E tx st) =
        (case fault_at 0 st of
           Some e \<Rightarrow> caught h e
         | None \<Rightarrow>
             (case (case fault_at 1 st of
                      Some e \<Rightarrow> caught h e
                    | None \<Rightarrow>
                        (case find (\<lambda>u. user_id u = buyerId tx) (users st) of
                           None \<Rightarrow> caught h (Error ''User credits update failed'')
                         | Some u \<Rightarrow>
                             Inr (Some (user_json
                               (u\<lparr>creditBalance := creditBalance u + credits tx\<rparr>))))) of
                Inl e \<Rightarrow> caught h e
              | Inr _ \<Rightarrow>
                  Inr (Some (transaction_json
                    \<lparr>plan = plan tx, credits = credits tx, amount = amount tx,
                     buyerId = buyerId tx, transaction_id = show_nat (nextId st), buyer = buyerId tx\<rparr>))))"
    by (rule createTransaction_eq(1) [OF c])
  show "oplog (snd (createTransaction h E tx st)) =
        oplog st @
        (case fault_at 0 st of
           Some e \<Rightarrow> [Insert Transactions]
         | None \<Rightarrow> [Insert Transactions, FindOneAndUpdate Users])"
    by (rule createTransaction_eq(2) [OF c])
next
  assume f: "fst (connected E st) = Inl e0"
  note d = disconnected_eq [OF f]
  show "fst (createUser h E p st) = caught h e0" using d(1) by simp
  show "oplog (snd (createUser h E p st)) = oplog st" using d(1) by simp
  show "fst (getUserById h E cid st) = caught h e0" using d(2) by simp
  show "oplog (snd (getUserById h E cid st)) = oplog st" using d(2) by simp
  show "fst (updateUser h E cid upd st) = caught h e0" using d(3) by simp
  show "oplog (snd (updateUser h E cid upd st)) = oplog st" using d(3) by simp
  show "fst (deleteUser h E cid st) = caught h e0" using d(4) by simp
  show "oplog (snd (deleteUser h E cid st)) = oplog st" using d(4) by simp
  show "fst (updateCredits h E userId d st) = caught h e0" using d(5) by simp
  show "oplog (snd (updateCredits h E userId d st)) = oplog st" using d(5) by simp
  show "fst (createTransaction h E tx st) = caught h e0" using d(6) by simp
  show "oplog (snd (createTransaction h E tx st)) = oplog st" using d(6) by simp
next
  show "caught handleError e1 = Inr None" by simp
qed

theorem persistence_operations_witness:
  "fst (connected env_up (demo_db [])) = Inr (Mongoose 0) \<and>
   fst (createUser handleError env_up \<lparr>clerkId = ''clerk_carol'', profile = []\<rparr> (demo_db [])) =
     Inr (Some (user_json
       \<lparr>clerkId = ''clerk_carol'', profile = [], user_id = ''3'', creditBalance = 10\<rparr>)) \<and>
   oplog (snd (deleteUser handleError env_up ''clerk_bob'' (demo_db []))) =
     [FindOne Users, FindByIdAndDelete Users] \<and>
   oplog (snd (getUserById handleError env_up ''clerk_bob'' (demo_db []))) = [FindOne Users] \<and>
   fst (connected env_down (demo_db [])) = Inl (Error ''ECONNREFUSED'') \<and>
   fst (updateUser handleError env_down ''clerk_bob'' [] (demo_db [])) = Inr None \<and>
   oplog (snd (updateUser handleError env_down ''clerk_bob'' [] (demo_db []))) = []"
proof -
  have h1: "fst (connected env_up (demo_db [])) = Inr (Mongoose 0)"
    by simp
  have h2: "fst (connected env_down (demo_db [])) = Inl (Error ''ECONNREFUSED'')"
    by (simp add: connected_def connectToDatabase_def connect_begin_def connect_resume_def
        demo_db_def cache0_def env_down_def env_up_def)
  note up = persistence_operations
    [where E = env_up and st = "demo_db []" and m = "Mongoose 0" and h = handleError
       and p = "\<lparr>clerkId = ''clerk_carol'', profile = []\<rparr>" and cid = "''clerk_bob''"]
  from h1 up have "fst (createUser handleError env_up \<lparr>clerkId = ''clerk_carol'', profile = []\<rparr> (demo_db [])) =
        (case fault_at 0 (demo_db []) of
           Some e \<Rightarrow> caught handleError e
         | None \<Rightarrow> Inr (Some (user_json \<lparr>clerkId = clerkId \<lparr>clerkId = ''clerk_carol'', profile = []\<rparr>,
                      profile = profile \<lparr>clerkId = ''clerk_carol'', profile = []\<rparr>,
                      user_id = show_nat (nextId (demo_db [])), creditBalance = initialCredits env_up\<rparr>)))"
    by blast
  then have c1: "fst (createUser handleError env_up \<lparr>clerkId = ''clerk_carol'', profile = []\<rparr> (demo_db [])) =
     Inr (Some (user_json
       \<lparr>clerkId = ''clerk_carol'', profile = [], user_id = ''3'', creditBalance = 10\<rparr>))"
    by (simp add: fault_at_def script_at_def env_up_def show_nat_3)
  from h1 up have "oplog (snd (deleteUser handleError env_up ''clerk_bob'' (demo_db []))) =
        oplog (demo_db []) @
        (case fault_at 0 (demo_db []) of
           Some e \<Rightarrow> [FindOne Users]
         | None \<Rightarrow>
             (case find (\<lambda>u. clerkId u = ''clerk_bob'') (users (demo_db [])) of
                None \<Rightarrow> [FindOne Users]
              | Some u \<Rightarrow> [FindOne Users, FindByIdAndDelete Users]))"
    by blast
  then have c2: "oplog (snd (deleteUser handleError env_up ''clerk_bob'' (demo_db []))) =
      [FindOne Users, FindByIdAndDelete Users]"
    by (simp add: fault_at_def script_at_def)
  from h1 up have "oplog (snd (getUserById handleError env_up ''clerk_bob'' (demo_db []))) =
      oplog (demo_db []) @ [FindOne Users]"
    by blast
  then have c3: "oplog (snd (getUserById handleError env_up ''clerk_bob'' (demo_db []))) = [FindOne Users]"
    by simp
  note down = persistence_operations
    [where E = env_down and st = "demo_db []" and ?e0.0 = "Error ''ECONNREFUSED''"
       and h = handleError and cid = "''clerk_bob''" and upd = "[]"]
  from h2 down have "fst (updateUser handleError env_down ''clerk_bob'' [] (demo_db [])) =
       caught handleError (Error ''ECONNREFUSED'') \<and>
       oplog (snd (updateUser handleError env_down ''clerk_bob'' [] (demo_db []))) = oplog (demo_db [])"
    by blast
  then have c4: "fst (updateUser handleError env_down ''clerk_bob'' [] (demo_db [])) = Inr None"
    "oplog (snd (updateUser handleError env_down ''clerk_bob'' [] (demo_db []))) = []"
    by simp_all
  from h1 h2 c1 c2 c3 c4 show ?thesis by blast
qed

section \<open>Checkout: proofs\<close>

lemma bitlen_eqI: "0 < k \<Longrightarrow> 2 ^ nat (k - 1) \<le> x \<Longrightarrow> x < 2 ^ nat k \<Longrightarrow> bitlen x = k"
  by (rule antisym) (simp_all add: bitlen_le_iff_power bitlen_ge_iff_power nat_diff_distrib')

lemma floor_rat_numeral: "\<lfloor>(numeral a :: rat) / numeral b\<rfloor> = numeral a div numeral b"
  by (metis floor_divide_of_int_eq of_int_numeral)

lemma ilog2_eqI:
  assumes "0 \<le> k" "2 ^ nat k \<le> x" "x < 2 ^ nat (k + 1)"
  shows "ilog2 x = k"
proof -
  from assms have x1: "1 \<le> x"
    by (meson one_le_numeral one_le_power order_trans)
  have "(2::int) ^ nat k \<le> \<lfloor>x\<rfloor>"
    using assms(2) by (simp add: le_floor_iff)
  moreover have "\<lfloor>x\<rfloor> < 2 ^ nat (k + 1)"
    using assms(3) by (simp add: floor_less_iff)
  ultimately have "bitlen \<lfloor>x\<rfloor> = k + 1"
    using assms(1) by (intro bitlen_eqI) simp_all
  with x1 show ?thesis by (simp add: ilog2_def)
qed

lemma round_half_even_int [simp]: "round_half_even (of_int z) = z"
  by (simp add: round_half_even_def)

lemma to_double_whole:
  assumes "0 \<le> k" "k < 2 ^ 53"
  shows "to_double (of_int k) = Fin (of_int k)"
proof (cases "k = 0")
  case True
  then show ?thesis by (simp add: to_double_def)
next
  case False
  with assms(1) have pos: "0 < k" by simp
  define j where "j = bitlen k - 1"
  from pos have "1 \<le> bitlen k"
    by (simp add: bitlen_ge_iff_power)
  moreover from assms(2) have "bitlen k \<le> 53"
    by (simp add: bitlen_le_iff_power)
  ultimately have j: "0 \<le> j" "j \<le> 52" by (simp_all add: j_def)
  from pos have il: "ilog2 (of_int k) = j"
    by (simp add: ilog2_def j_def)
  from j have e: "max (j - 52) (- 1074) = j - 52" by simp
  have p: "pow2 (j - 52) = 1 / 2 ^ nat (52 - j)"
  proof (cases "j = 52")
    case True
    then show ?thesis by (simp add: pow2_def)
  next
    case False
    with j have "\<not> 0 \<le> j - 52" by simp
    then show ?thesis by (simp add: pow2_def)
  qed
  have q: "rat_of_int k / pow2 (j - 52) = of_int (k * 2 ^ nat (52 - j))"
    by (simp add: p)
  have m: "round_half_even (rat_of_int k / pow2 (j - 52)) = k * 2 ^ nat (52 - j)"
    by (simp only: q round_half_even_int)
  have r: "rat_of_int (k * 2 ^ nat (52 - j)) * pow2 (j - 52) = of_int k"
    by (simp add: p)
  from j have ne: "\<not> (971 < j - 52 \<or> (j - 52 = 971 \<and> (2::int) ^ 53 \<le> k * 2 ^ nat (52 - j)))"
    by simp
  from pos have nz: "rat_of_int k \<noteq> 0" "0 < rat_of_int k" "\<bar>rat_of_int k\<bar> = rat_of_int k"
    by simp_all
  have "to_double (of_int k) =
      (if 971 < j - 52 \<or> (j - 52 = 971 \<and> (2::int) ^ 53 \<le> k * 2 ^ nat (52 - j))
       then Infinity else Fin (of_int k))"
    by (simp only: to_double_def Let_def nz il e m r if_False if_True)
  with ne show ?thesis by (simp only: if_False)
qed

lemma ilog2_19_99: "ilog2 (1999 / 100) = 4"
  by (rule ilog2_eqI) simp_all

lemma to_double_19_99: "to_double (1999 / 100) = Fin (5626684784446013 / 281474976710656)"
  by (simp add: to_double_def ilog2_19_99 Let_def pow2_def round_half_even_def floor_rat_numeral)

lemma ilog2_1999: "ilog2 (140667119611150325 / 70368744177664) = 10"
  by (rule ilog2_eqI) simp_all

lemma multiply_odd_price:
  "multiply (Fin (5626684784446013 / 281474976710656)) (Fin 100) =
     Fin (8791694975696895 / 4398046511104)"
  by (simp add: to_double_def ilog2_1999 Let_def pow2_def round_half_even_def floor_rat_numeral)

text \<open>
  Claim C5, as stated, fails in its unit price: at the price 19.99 (the double nearest
  to it) the action sends the double nearest to the product, 1998.9999999999998,
  which is neither the amount times 100 nor a whole number of minor units.
\<close>

theorem checkout_unit_amount_counterexample:
  "amount odd_price = to_double (1999 / 100) \<and>
   map unit_amount (line_items (checkout_request env_up odd_price)) =
     [Fin (8791694975696895 / 4398046511104)] \<and>
   map unit_amount (line_items (checkout_request env_up odd_price)) \<noteq>
     [Fin (5626684784446013 / 281474976710656 * 100)] \<and>
   map unit_amount (line_items (checkout_request env_up odd_price)) \<noteq> [Fin 1999]"
  by (simp add: odd_price_def checkout_request_def to_double_19_99 multiply_odd_price
      del: multiply.simps)

text \<open>
  Claim C5, amended. \<^verbatim>\<open>checkoutCredits\<close> sends the provider a session request with a
  single line item: quantity 1, currency \<open>usd\<close>, named after the plan, with the unit
  price \<^verbatim>\<open>amount * 100\<close> as double-precision arithmetic computes it: the product rounded
  to the nearest double. That is the exact product whenever the exact product is
  itself a double, as it is for every whole amount whose product stays below
  \<open>2 ^ 53\<close>; an amount of 10 for the plan \<open>Pro\<close> makes a unit price of 1000. The
  metadata are exactly the plan name, the credit count and the buyer id, in that
  order. The action leaves the store and the connection cache as they are. When the
  provider answers with a session, the action redirects to its URL; when the provider
  call fails, the action fails with that same error.
\<close>

theorem checkoutCredits_session:
  "length (line_items (checkout_request E tx)) = 1 \<and>
   map quantity (line_items (checkout_request E tx)) = [1] \<and>
   map currency (line_items (checkout_request E tx)) = [''usd''] \<and>
   map product_name (line_items (checkout_request E tx)) = [plan tx] \<and>
   map unit_amount (line_items (checkout_request E tx)) = [multiply (amount tx) (Fin 100)] \<and>
   (amount tx = Fin a \<and> to_double (a * 100) = Fin (a * 100) \<longrightarrow>
      map unit_amount (line_items (checkout_request E tx)) = [Fin (a * 100)]) \<and>
   (amount tx = Fin (of_int n) \<and> 0 \<le> n \<and> n * 100 < 2 ^ 53 \<longrightarrow>
      map unit_amount (line_items (checkout_request E tx)) = [Fin (of_int (n * 100))]) \<and>
   metadata (checkout_request E tx) =
     [(''plan'', JStr (plan tx)), (''credits'', JNum (of_int (credits tx))),
      (''buyerId'', JStr (buyerId tx))] \<and>
   (amount tx = Fin 10 \<and> plan tx = ''Pro'' \<longrightarrow>
      map unit_amount (line_items (checkout_request E tx)) = [Fin 1000] \<and>
      metadata (checkout_request E tx) =
        [(''plan'', JStr ''Pro''), (''credits'', JNum (of_int (credits tx))),
         (''buyerId'', JStr (buyerId tx))]) \<and>
   snd (checkoutCredits E tx st) = st \<and>
   (sessions_create E (checkout_request E tx) = Inr session_url \<longrightarrow>
      fst (checkoutCredits E tx st) = Inr (Redirect session_url)) \<and>
   (sessions_create E (checkout_request E tx) = Inl e \<longrightarrow>
      fst (checkoutCredits E tx st) = Inl e)"
proof (intro conjI impI)
  show "length (line_items (checkout_request E tx)) = 1"
    by (simp add: checkout_request_def)
  show "map quantity (line_items (checkout_request E tx)) = [1]"
    by (simp add: checkout_request_def)
  show "map currency (line_items (checkout_request E tx)) = [''usd'']"
    by (simp add: checkout_request_def)
  show "map product_name (line_items (checkout_request E tx)) = [plan tx]"
    by (simp add: checkout_request_def)
  show u: "map unit_amount (line_items (checkout_request E tx)) = [multiply (amount tx) (Fin 100)]"
    by (simp add: checkout_request_def)
  show "map unit_amount (line_items (checkout_request E tx)) = [Fin (a * 100)]"
    if "amount tx = Fin a \<and> to_double (a * 100) = Fin (a * 100)"
    using that by (simp add: u)
  show "map unit_amount (line_items (checkout_request E tx)) = [Fin (of_int (n * 100))]"
    if a: "amount tx = Fin (of_int n) \<and> 0 \<le> n \<and> n * 100 < 2 ^ 53"
  proof -
    from a have "0 \<le> n * 100" "n * 100 < 2 ^ 53" by simp_all
    from to_double_whole [OF this] a show ?thesis by (simp add: u)
  qed
  show m: "metadata (checkout_request E tx) =
     [(''plan'', JStr (plan tx)), (''credits'', JNum (of_int (credits tx))),
      (''buyerId'', JStr (buyerId tx))]"
    by (simp add: checkout_request_def)
  show "map unit_amount (line_items (checkout_request E tx)) = [Fin 1000]"
    if a: "amount tx = Fin 10 \<and> plan tx = ''Pro''"
  proof -
    have "to_double (of_int 1000) = Fin (of_int 1000)"
      by (rule to_double_whole) simp_all
    with a show ?thesis by (simp add: u)
  qed
  show "metadata (checkout_request E tx) =
        [(''plan'', JStr ''Pro''), (''credits'', JNum (of_int (credits tx))),
         (''buyerId'', JStr (buyerId tx))]"
    if "amount tx = Fin 10 \<and> plan tx = ''Pro''"
    using that by (simp add: m)
  show "snd (checkoutCredits E tx st) = st"
    by (simp add: checkoutCredits_def split: sum.splits)
  show "fst (checkoutCredits E tx st) = Inr (Redirect session_url)"
    if "sessions_create E (checkout_request E tx) = Inr session_url"
    using that by (simp add: checkoutCredits_def)
  show "fst (checkoutCredits E tx st) = Inl e"
    if "sessions_create E (checkout_request E tx) = Inl e"
    using that by (simp add: checkoutCredits_def)
qed

theorem checkoutCredits_session_witness:
  "amount (pro_plan ''1'') = Fin 10 \<and> plan (pro_plan ''1'') = ''Pro'' \<and>
   map unit_amount (line_items (checkout_request env_up (pro_plan ''1''))) = [Fin 1000] \<and>
   amount (pro_plan ''1'') = Fin (of_int 10) \<and> (0::int) \<le> 10 \<and> (10::int) * 100 < 2 ^ 53 \<and>
   amount (pro_plan ''1'') = Fin 10 \<and> to_double (10 * 100) = Fin (10 * 100) \<and>
   sessions_create env_up (checkout_request env_up (pro_plan ''1'')) = Inr ''https://pay/session'' \<and>
   fst (checkoutCredits env_up (pro_plan ''1'') (demo_db [])) = Inr (Redirect ''https://pay/session'') \<and>
   sessions_create env_declined (checkout_request env_declined (pro_plan ''1'')) =
     Inl (Error ''api_connection_error'') \<and>
   fst (checkoutCredits env_declined (pro_plan ''1'') (demo_db [])) =
     Inl (Error ''api_connection_error'')"
proof -
  have h1: "amount (pro_plan ''1'') = Fin 10 \<and> plan (pro_plan ''1'') = ''Pro''"
    by (simp add: pro_plan_def)
  have h1': "amount (pro_plan ''1'') = Fin (of_int 10) \<and> (0::int) \<le> 10 \<and> (10::int) * 100 < 2 ^ 53"
    by (simp add: pro_plan_def)
  have "to_double (of_int 1000) = Fin (of_int 1000)"
    by (rule to_double_whole) simp_all
  then have h1'': "amount (pro_plan ''1'') = Fin 10 \<and> to_double (10 * 100) = Fin (10 * 100)"
    by (simp add: pro_plan_def)
  have h2: "sessions_create env_up (checkout_request env_up (pro_plan ''1'')) = Inr ''https://pay/session''"
    by (simp add: env_up_def)
  have h3: "sessions_create env_declined (checkout_request env_declined (pro_plan ''1'')) =
     Inl (Error ''api_connection_error'')"
    by (simp add: env_declined_def)
  note up = checkoutCredits_session
    [where E = env_up and tx = "pro_plan ''1''" and st = "demo_db []"
       and session_url = "''https://pay/session''" and n = 10 and a = 10]
  from h1 up
  have c1: "map unit_amount (line_items (checkout_request env_up (pro_plan ''1''))) = [Fin 1000]"
    by blast
  from h2 up
  have c1': "fst (checkoutCredits env_up (pro_plan ''1'') (demo_db [])) = Inr (Redirect ''https://pay/session'')"
    by blast
  from h3 checkoutCredits_session
    [where E = env_declined and tx = "pro_plan ''1''" and st = "demo_db []"
       and e = "Error ''api_connection_error''"]
  have c2: "fst (checkoutCredits env_declined (pro_plan ''1'') (demo_db [])) =
     Inl (Error ''api_connection_error'')"
    by blast
  from h1 h1' h1'' h2 h3 c1 c1' c2 show ?thesis by blast
qed

section \<open>The transformation form: proofs\<close>

text \<open>
  Claim C6. Whatever the balance and whatever the fee (zero, positive or negative), the
  form renders the insufficient-credits interstitial exactly when the balance is below
  the absolute value of the fee; when it does, the interstitial is rendered once, as
  the first child of the form.
\<close>

theorem insufficient_credits_iff:
  "(InsufficientCreditsModal \<in> set (render type credit_balance creditFee f)) =
     (credit_balance < \<bar>creditFee\<bar>) \<and>
   count_list (render type credit_balance creditFee f) InsufficientCreditsModal =
     (if credit_balance < \<bar>creditFee\<bar> then 1 else 0)"
  by (simp add: render_def)

lemma merge_entries_untouched:
  "k \<notin> fst ` set ps \<Longrightarrow> map_of (merge_entries ps cs) k = map_of cs k"
proof (induction ps arbitrary: cs)
  case Nil
  then show ?case by simp
next
  case (Cons kv ps)
  obtain k' v where kv: "kv = (k', v)" by (cases kv)
  from Cons.prems kv have ne: "k' \<noteq> k" and rest: "k \<notin> fst ` set ps" by auto
  show ?case
    using ne by (simp add: kv Cons.IH [OF rest] update_conv' map_add_def split: option.splits)
qed

lemma merge_entries_touched:
  assumes "distinct (map fst ps)" and "(k, v) \<in> set ps"
  shows "map_of (merge_entries ps cs) k =
      (if v = JNull then map_of cs k
       else (case map_of cs k of None \<Rightarrow> Some v | Some w \<Rightarrow> Some (deepMergeObjects v w)))"
  using assms
proof (induction ps arbitrary: cs)
  case Nil
  then show ?case by simp
next
  case (Cons kv ps)
  obtain k' v' where kv: "kv = (k', v')" by (cases kv)
  show ?case
  proof (cases "(k, v) = kv")
    case True
    with kv have e: "k' = k" "v' = v" by simp_all
    from Cons.prems(1) kv e have rest: "k \<notin> fst ` set ps" by simp
    show ?thesis
      by (simp add: kv e merge_entries_untouched [OF rest] update_conv' map_add_def split: option.splits)
  next
    case False
    with Cons.prems(2) have mem: "(k, v) \<in> set ps" by simp
    from Cons.prems(1) have d: "distinct (map fst ps)" by simp
    from Cons.prems(1) kv mem have ne: "k' \<noteq> k" by (auto simp: image_iff)
    show ?thesis
      using ne by (simp add: kv Cons.IH [OF d mem] update_conv' map_add_def split: option.splits)
  qed
qed

lemma deepMergeObjects_scalar: "scalar v \<Longrightarrow> deepMergeObjects v w = v"
  by (cases v; cases w) simp_all

text \<open>
  Claim C2. \<^verbatim>\<open>onTransformHandler\<close> replaces the committed configuration with the deep
  merge of the pending configuration into it and clears the pending configuration.
  In the merge of a pending object into a committed object: a key the pending side
  does not have keeps its committed value; a key the pending side gives a scalar value
  takes that value; a key that holds an object on both sides holds the deep merge of
  the two; a key the pending side holds with no value keeps its committed value.
  Merging \<open>{remove: {prompt: cat}}\<close> into
  \<open>{remove: {prompt: dog, removeShadow: true}, recolor: {color: red}}\<close> gives
  \<open>{remove: {prompt: cat, removeShadow: true}, recolor: {color: red}}\<close>.
\<close>

theorem onTransformHandler_deep_merge:
  "transformationConfig (onTransformHandler userId creditFee f) =
     deepMergeObjects (newTransformation f) (transformationConfig f) \<and>
   newTransformation (onTransformHandler userId creditFee f) = JNull \<and>
   (k \<notin> fst ` set ps \<longrightarrow>
      map_of (spread (deepMergeObjects (JObj ps) (JObj cs))) k = map_of cs k) \<and>
   (distinct (map fst ps) \<and> (k, v) \<in> set ps \<and> scalar v \<longrightarrow>
      map_of (spread (deepMergeObjects (JObj ps) (JObj cs))) k = Some v) \<and>
   (distinct (map fst ps) \<and> (k, JObj ps') \<in> set ps \<and> map_of cs k = Some (JObj cs') \<longrightarrow>
      map_of (spread (deepMergeObjects (JObj ps) (JObj cs))) k =
        Some (deepMergeObjects (JObj ps') (JObj cs'))) \<and>
   (distinct (map fst ps) \<and> (k, JNull) \<in> set ps \<longrightarrow>
      map_of (spread (deepMergeObjects (JObj ps) (JObj cs))) k = map_of cs k) \<and>
   deepMergeObjects pending_cat committed_dog = merged_cat \<and>
   (newTransformation f = pending_cat \<and> transformationConfig f = committed_dog \<longrightarrow>
      transformationConfig (onTransformHandler userId creditFee f) = merged_cat \<and>
      newTransformation (onTransformHandler userId creditFee f) = JNull)"
proof (intro conjI impI)
  show "transformationConfig (onTransformHandler userId creditFee f) =
     deepMergeObjects (newTransformation f) (transformationConfig f)"
    by (simp add: onTransformHandler_def)
  show "newTransformation (onTransformHandler userId creditFee f) = JNull"
    by (simp add: onTransformHandler_def)
  show "map_of (spread (deepMergeObjects (JObj ps) (JObj cs))) k = map_of cs k"
    if "k \<notin> fst ` set ps"
    using that by (simp add: merge_entries_untouched)
  show "map_of (spread (deepMergeObjects (JObj ps) (JObj cs))) k = Some v"
    if a: "distinct (map fst ps) \<and> (k, v) \<in> set ps \<and> scalar v"
  proof -
    from a have d: "distinct (map fst ps)" and m: "(k, v) \<in> set ps" and s: "scalar v"
      by simp_all
    from s have "v \<noteq> JNull" by auto
    then show ?thesis
      by (simp add: merge_entries_touched [OF d m] deepMergeObjects_scalar [OF s]
          split: option.splits)
  qed
  show "map_of (spread (deepMergeObjects (JObj ps) (JObj cs))) k =
        Some (deepMergeObjects (JObj ps') (JObj cs'))"
    if a: "distinct (map fst ps) \<and> (k, JObj ps') \<in> set ps \<and> map_of cs k = Some (JObj cs')"
  proof -
    from a have d: "distinct (map fst ps)" and m: "(k, JObj ps') \<in> set ps"
      and c: "map_of cs k = Some (JObj cs')" by simp_all
    show ?thesis
      by (simp add: merge_entries_touched [OF d m] c)
  qed
  show "map_of (spread (deepMergeObjects (JObj ps) (JObj cs))) k = map_of cs k"
    if a: "distinct (map fst ps) \<and> (k, JNull) \<in> set ps"
  proof -
    from a have d: "distinct (map fst ps)" and m: "(k, JNull) \<in> set ps" by simp_all
    show ?thesis
      by (simp add: merge_entries_touched [OF d m])
  qed
  show ex: "deepMergeObjects pending_cat committed_dog = merged_cat"
    by (simp add: pending_cat_def committed_dog_def merged_cat_def)
  show "transformationConfig (onTransformHandler userId creditFee f) = merged_cat"
    if "newTransformation f = pending_cat \<and> transformationConfig f = committed_dog"
    using that ex by (simp add: onTransformHandler_def)
  show "newTransformation (onTransformHandler userId creditFee f) = JNull"
    by (simp add: onTransformHandler_def)
qed

theorem onTransformHandler_deep_merge_witness:
  "''recolor'' \<notin> fst ` set [(''remove'', JObj [(''prompt'', JStr ''cat'')])] \<and>
   map_of (spread (deepMergeObjects pending_cat committed_dog)) ''recolor'' =
     Some (JObj [(''color'', JStr ''red'')]) \<and>
   distinct (map fst [(''prompt'', JStr ''cat'')]) \<and>
   (''prompt'', JStr ''cat'') \<in> set [(''prompt'', JStr ''cat'')] \<and> scalar (JStr ''cat'') \<and>
   map_of (spread (deepMergeObjects (JObj [(''prompt'', JStr ''cat'')])
       (JObj [(''prompt'', JStr ''dog''), (''removeShadow'', JBool True)]))) ''prompt'' =
     Some (JStr ''cat'') \<and>
   map_of (spread (deepMergeObjects pending_cat committed_dog)) ''remove'' =
     Some (deepMergeObjects (JObj [(''prompt'', JStr ''cat'')])
       (JObj [(''prompt'', JStr ''dog''), (''removeShadow'', JBool True)])) \<and>
   map_of (spread (deepMergeObjects (JObj [(''remove'', JNull)]) committed_dog)) ''remove'' =
     Some (JObj [(''prompt'', JStr ''dog''), (''removeShadow'', JBool True)]) \<and>
   newTransformation (form0\<lparr>newTransformation := pending_cat,
     transformationConfig := committed_dog\<rparr>) = pending_cat \<and>
   transformationConfig (onTransformHandler ''1'' (- 1)
     (form0\<lparr>newTransformation := pending_cat, transformationConfig := committed_dog\<rparr>)) =
     merged_cat"
proof -
  let ?ps = "[(''remove'', JObj [(''prompt'', JStr ''cat'')])]"
  let ?cs = "[(''remove'', JObj [(''prompt'', JStr ''dog''), (''removeShadow'', JBool True)]),
     (''recolor'', JObj [(''color'', JStr ''red'')])]"
  let ?f = "form0\<lparr>newTransformation := pending_cat, transformationConfig := committed_dog\<rparr>"
  have h1: "''recolor'' \<notin> fst ` set ?ps" by simp
  from h1 onTransformHandler_deep_merge [where k = "''recolor''" and ps = ?ps and cs = ?cs]
  have "map_of (spread (deepMergeObjects (JObj ?ps) (JObj ?cs))) ''recolor'' = map_of ?cs ''recolor''"
    by blast
  then have c1: "map_of (spread (deepMergeObjects pending_cat committed_dog)) ''recolor'' =
     Some (JObj [(''color'', JStr ''red'')])"
    by (simp add: pending_cat_def committed_dog_def)
  have h2: "distinct (map fst [(''prompt'', JStr ''cat'')]) \<and>
      (''prompt'', JStr ''cat'') \<in> set [(''prompt'', JStr ''cat'')] \<and> scalar (JStr ''cat'')"
    by simp
  from h2 onTransformHandler_deep_merge
    [where k = "''prompt''" and ps = "[(''prompt'', JStr ''cat'')]" and v = "JStr ''cat''"
       and cs = "[(''prompt'', JStr ''dog''), (''removeShadow'', JBool True)]"]
  have c2: "map_of (spread (deepMergeObjects (JObj [(''prompt'', JStr ''cat'')])
       (JObj [(''prompt'', JStr ''dog''), (''removeShadow'', JBool True)]))) ''prompt'' =
     Some (JStr ''cat'')"
    by blast
  have h3: "distinct (map fst ?ps) \<and> (''remove'', JObj [(''prompt'', JStr ''cat'')]) \<in> set ?ps \<and>
      map_of ?cs ''remove'' = Some (JObj [(''prompt'', JStr ''dog''), (''removeShadow'', JBool True)])"
    by simp
  from h3 onTransformHandler_deep_merge
    [where k = "''remove''" and ps = ?ps and cs = ?cs and ps' = "[(''prompt'', JStr ''cat'')]"
       and cs' = "[(''prompt'', JStr ''dog''), (''removeShadow'', JBool True)]"]
  have "map_of (spread (deepMergeObjects (JObj ?ps) (JObj ?cs))) ''remove'' =
     Some (deepMergeObjects (JObj [(''prompt'', JStr ''cat'')])
       (JObj [(''prompt'', JStr ''dog''), (''removeShadow'', JBool True)]))"
    by blast
  then have c3: "map_of (spread (deepMergeObjects pending_cat committed_dog)) ''remove'' =
     Some (deepMergeObjects (JObj [(''prompt'', JStr ''cat'')])
       (JObj [(''prompt'', JStr ''dog''), (''removeShadow'', JBool True)]))"
    by (simp only: pending_cat_def committed_dog_def)
  have h4: "distinct (map fst [(''remove'', JNull)]) \<and> (''remove'', JNull) \<in> set [(''remove'', JNull)]"
    by simp
  from h4 onTransformHandler_deep_merge
    [where k = "''remove''" and ps = "[(''remove'', JNull)]" and cs = ?cs]
  have "map_of (spread (deepMergeObjects (JObj [(''remove'', JNull)]) (JObj ?cs))) ''remove'' =
     map_of ?cs ''remove''"
    by blast
  then have c4: "map_of (spread (deepMergeObjects (JObj [(''remove'', JNull)]) committed_dog)) ''remove'' =
     Some (JObj [(''prompt'', JStr ''dog''), (''removeShadow'', JBool True)])"
    by (simp add: committed_dog_def)
  have h5: "newTransformation ?f = pending_cat \<and> transformationConfig ?f = committed_dog"
    by simp
  from h5 onTransformHandler_deep_merge [where f = ?f and userId = "''1''" and creditFee = "- 1"]
  have c5: "transformationConfig (onTransformHandler ''1'' (- 1) ?f) = merged_cat"
    by blast
  from h1 c1 h2 c2 c3 c4 h5 c5 show ?thesis by blast
qed

lemma elapse_before:
  assumes "timer f = None \<or> (\<exists>d cb. timer f = Some (d, cb) \<and> now < d)"
  shows "elapse now f = f"
  using assms by (auto simp: elapse_def)

lemma type_into_quiet:
  assumes "timer f = None \<or> (\<exists>d cb. timer f = Some (d, cb) \<and> at_ms e < d)"
  shows "type_into f e =
    f\<lparr>timer := Some (at_ms e + 1000, InputChange (fieldName e) (val e) (ty e))\<rparr>"
  by (simp add: type_into_def elapse_before [OF assms] onInputChangeHandler_def debounce_def)

lemma edits_quiet:
  assumes "es \<noteq> []"
    and "\<forall>e \<in> set es. lo \<le> at_ms e \<and> at_ms e < lo + 1000"
    and "timer f = None \<or> (\<exists>d cb. timer f = Some (d, cb) \<and> lo + 1000 \<le> d)"
  shows "edits es f =
    f\<lparr>timer := Some (at_ms (last es) + 1000,
                     InputChange (fieldName (last es)) (val (last es)) (ty (last es)))\<rparr>"
  using assms
proof (induction es arbitrary: f)
  case Nil
  then show ?case by simp
next
  case (Cons e es)
  from Cons.prems(2) have e: "lo \<le> at_ms e" "at_ms e < lo + 1000" by simp_all
  from Cons.prems(3) e(2)
  have "timer f = None \<or> (\<exists>d cb. timer f = Some (d, cb) \<and> at_ms e < d)"
    by auto
  then have step: "type_into f e =
      f\<lparr>timer := Some (at_ms e + 1000, InputChange (fieldName e) (val e) (ty e))\<rparr>"
    by (rule type_into_quiet)
  show ?case
  proof (cases "es = []")
    case True
    then show ?thesis by (simp add: edits_def step)
  next
    case False
    let ?f1 = "f\<lparr>timer := Some (at_ms e + 1000, InputChange (fieldName e) (val e) (ty e))\<rparr>"
    from Cons.prems(2) have rest: "\<forall>e \<in> set es. lo \<le> at_ms e \<and> at_ms e < lo + 1000"
      by simp
    from e(1) have armed: "timer ?f1 = None \<or> (\<exists>d cb. timer ?f1 = Some (d, cb) \<and> lo + 1000 \<le> d)"
      by simp
    from Cons.IH [OF False rest armed] have "edits es ?f1 =
        ?f1\<lparr>timer := Some (at_ms (last es) + 1000,
                     InputChange (fieldName (last es)) (val (last es)) (ty (last es)))\<rparr>" .
    then show ?thesis using False by (simp add: edits_def step)
  qed
qed

lemma sorted_between:
  assumes "sorted (map g xs)" and "x \<in> set xs"
  shows "g (hd xs) \<le> g x \<and> g x \<le> (g (last xs) :: nat)"
  using assms
proof (induction xs)
  case Nil
  then show ?case by simp
next
  case (Cons y ys)
  show ?case
  proof (cases "ys = []")
    case True
    with Cons.prems show ?thesis by simp
  next
    case False
    from Cons.prems(1) have s: "sorted (map g ys)" and le: "\<forall>z \<in> set ys. g y \<le> g z"
      by simp_all
    from False have l: "last ys \<in> set ys" by simp
    show ?thesis
    proof (cases "x = y")
      case True
      with le l False show ?thesis by simp
    next
      case neq: False
      with Cons.prems(2) have "x \<in> set ys" by simp
      with Cons.IH [OF s] le False show ?thesis by simp
    qed
  qed
qed

lemma with_input_value:
  "map_of (spread (get_prop (with_input fn v t prev) t))
     (if fn = ''prompt'' then ''prompt'' else ''to'') = Some (JStr v)"
  by (simp add: with_input_def get_prop_def update_conv')

text \<open>
  Claim C9. Five invocations of the input handler, at non-decreasing times that all lie
  within one debounce delay (1000 ms) of the first, on a form with no timer armed:
  up to the deadline of the last invocation nothing is committed; once that deadline
  has passed exactly one update has been committed, the one of the last invocation:
  the field's \<^verbatim>\<open>onChangeField\<close> has been called once, with the last value, the pending
  configuration is the old one with the last value written under the last
  invocation's type and field, and no timer remains armed.
\<close>

theorem debounced_input_commits_last:
  assumes "length es = 5" and "sorted (map at_ms es)"
    and "at_ms (last es) < at_ms (hd es) + 1000"
    and "timer f = None" and "at_ms (last es) + 1000 \<le> T"
  shows "changed (edits es f) = changed f \<and>
    newTransformation (edits es f) = newTransformation f \<and>
    changed (elapse T (edits es f)) = changed f @ [val (last es)] \<and>
    newTransformation (elapse T (edits es f)) =
      with_input (fieldName (last es)) (val (last es)) (ty (last es)) (newTransformation f) \<and>
    map_of (spread (get_prop (newTransformation (elapse T (edits es f))) (ty (last es))))
      (if fieldName (last es) = ''prompt'' then ''prompt'' else ''to'') = Some (JStr (val (last es))) \<and>
    timer (elapse T (edits es f)) = None"
proof -
  from assms(1) have ne: "es \<noteq> []" by auto
  have win: "\<forall>e \<in> set es. at_ms (hd es) \<le> at_ms e \<and> at_ms e < at_ms (hd es) + 1000"
  proof
    fix e assume "e \<in> set es"
    from sorted_between [OF assms(2) this] assms(3)
    show "at_ms (hd es) \<le> at_ms e \<and> at_ms e < at_ms (hd es) + 1000" by simp
  qed
  from assms(4) have t: "timer f = None \<or> (\<exists>d cb. timer f = Some (d, cb) \<and> at_ms (hd es) + 1000 \<le> d)"
    by simp
  note q = edits_quiet [OF ne win t]
  have fired: "elapse T (edits es f) =
      f\<lparr>timer := None,
        newTransformation :=
          with_input (fieldName (last es)) (val (last es)) (ty (last es)) (newTransformation f),
        changed := changed f @ [val (last es)]\<rparr>"
    using assms(5) by (simp add: q elapse_def)
  show ?thesis
    by (simp add: fired with_input_value) (simp add: q)
qed

theorem debounced_input_commits_last_witness:
  "length five_edits = 5 \<and> sorted (map at_ms five_edits) \<and>
   at_ms (last five_edits) < at_ms (hd five_edits) + 1000 \<and> timer form0 = None \<and>
   at_ms (last five_edits) + 1000 \<le> 1999 \<and>
   changed (elapse 1999 (edits five_edits form0)) = [''cat''] \<and>
   newTransformation (elapse 1999 (edits five_edits form0)) = pending_cat"
proof -
  have h: "length five_edits = 5" "sorted (map at_ms five_edits)"
    "at_ms (last five_edits) < at_ms (hd five_edits) + 1000" "timer form0 = None"
    "at_ms (last five_edits) + 1000 \<le> 1999"
    by (simp_all add: five_edits_def form0_def)
  from debounced_input_commits_last [OF h]
  have "changed (elapse 1999 (edits five_edits form0)) = changed form0 @ [val (last five_edits)]"
    and "newTransformation (elapse 1999 (edits five_edits form0)) =
      with_input (fieldName (last five_edits)) (val (last five_edits)) (ty (last five_edits))
        (newTransformation form0)"
    by simp_all
  then have c: "changed (elapse 1999 (edits five_edits form0)) = [''cat'']"
    "newTransformation (elapse 1999 (edits five_edits form0)) = pending_cat"
    by (simp_all add: five_edits_def form0_def with_input_def get_prop_def pending_cat_def)
  from h c show ?thesis by blast
qed

end
